theory Spec2Isabelle
  imports
    Complex_Main
    "HOL-Library.List_Lexorder"
    "HOL-Library.Char_ord"
    "HOL-Library.Product_Lexorder"
    "HOL-Library.Multiset"
begin

section \<open>Titles: normalisation and similarity\<close>

text \<open>
  The model of \<^verbatim>\<open>bin/finance_news_collect.py\<close>. A Python \<^verbatim>\<open>str\<close> is a
  \<^typ>\<open>string\<close> whose characters are read as code points below 256 (Latin-1); Python
  orders strings by code point, as \<^theory_text>\<open>List_Lexorder\<close> with
  \<^theory_text>\<open>Char_ord\<close> does. A Python \<^verbatim>\<open>float\<close> (weights, the threshold, the
  similarity ratio) is an exact rational: rounding is outside the model. The float of the
  command line, \<^verbatim>\<open>window_hours\<close>, may also be an infinity or not a number.
\<close>

definition isspace :: "char \<Rightarrow> bool" where
  \<comment> \<open>the white space of \<^verbatim>\<open>str.strip()\<close> and of \<^verbatim>\<open>\s\<close> below code point 256\<close>
  "isspace c = (let n = (of_char c :: nat) in
     (9 \<le> n \<and> n \<le> 13) \<or> (28 \<le> n \<and> n \<le> 32) \<or> n = 133 \<or> n = 160)"

definition lower_char :: "char \<Rightarrow> char" where
  \<comment> \<open>\<^verbatim>\<open>str.lower()\<close> on one code point below 256\<close>
  "lower_char c = (let n = (of_char c :: nat) in
     if (65 \<le> n \<and> n \<le> 90) \<or> (192 \<le> n \<and> n \<le> 222 \<and> n \<noteq> 215)
     then char_of (n + 32) else c)"

definition strip :: "string \<Rightarrow> string" where
  "strip s = rev (dropWhile isspace (rev (dropWhile isspace s)))"

fun sub_ws :: "bool \<Rightarrow> string \<Rightarrow> string" where
  \<comment> \<open>\<^verbatim>\<open>re.sub(r"\s+", " ", s)\<close>; the flag says that the run of white space being read
      has already produced its blank\<close>
  "sub_ws in_run [] = []"
| "sub_ws in_run (c # cs) =
     (if isspace c then (if in_run then sub_ws True cs else CHR '' '' # sub_ws True cs)
      else c # sub_ws False cs)"

definition title_norm :: "string \<Rightarrow> string" where
  "title_norm s = sub_ws False (map lower_char (strip s))"

subsection \<open>\<^verbatim>\<open>difflib.SequenceMatcher(None, a, b).ratio()\<close>\<close>

text \<open>
  The matcher is built with \<^verbatim>\<open>isjunk = None\<close> and \<^verbatim>\<open>autojunk = True\<close>: no element is
  junk, so the two loops of \<^verbatim>\<open>find_longest_match\<close> that extend a match over junk never
  run, and the elements of \<^verbatim>\<open>b\<close> that are popular (only when \<^verbatim>\<open>b\<close> has 200 elements or
  more) are left out of the index \<^verbatim>\<open>b2j\<close>.
\<close>

definition popular :: "string \<Rightarrow> char \<Rightarrow> bool" where
  "popular b c \<longleftrightarrow> 200 \<le> length b \<and> length b div 100 + 1 < count_list b c"

definition b2j :: "string \<Rightarrow> char \<Rightarrow> nat list" where
  "b2j b c = (if popular b c then [] else filter (\<lambda>j. b ! j = c) [0..<length b])"

type_synonym j2len = "(nat \<times> nat) list"

definition j2lenget :: "j2len \<Rightarrow> nat \<Rightarrow> nat" where
  \<comment> \<open>\<^verbatim>\<open>j2len.get(j-1, 0)\<close>, given \<^verbatim>\<open>j\<close>: the key \<^verbatim>\<open>-1\<close> is never present\<close>
  "j2lenget j2len j =
     (if j = 0 then 0 else (case map_of j2len (j - 1) of None \<Rightarrow> 0 | Some k \<Rightarrow> k))"

definition flm_inner ::
  "j2len \<Rightarrow> nat \<Rightarrow> j2len \<times> nat \<times> nat \<times> nat \<Rightarrow> nat \<Rightarrow> j2len \<times> nat \<times> nat \<times> nat" where
  \<comment> \<open>the body of \<^verbatim>\<open>for j in b2j.get(a[i], nothing)\<close>\<close>
  "flm_inner j2len i st j =
     (case st of (newj2len, besti, bestj, bestsize) \<Rightarrow>
        let k = j2lenget j2len j + 1 in
        if k > bestsize then ((j, k) # newj2len, i + 1 - k, j + 1 - k, k)
        else ((j, k) # newj2len, besti, bestj, bestsize))"

definition flm_outer ::
  "string \<Rightarrow> string \<Rightarrow> nat \<Rightarrow> nat \<Rightarrow> j2len \<times> nat \<times> nat \<times> nat \<Rightarrow> nat
     \<Rightarrow> j2len \<times> nat \<times> nat \<times> nat" where
  \<comment> \<open>the body of \<^verbatim>\<open>for i in range(alo, ahi)\<close>; the indices of \<^verbatim>\<open>b2j\<close> ascend, so
      skipping \<^verbatim>\<open>j < blo\<close> and leaving at \<^verbatim>\<open>j >= bhi\<close> is a filter\<close>
  "flm_outer a b blo bhi st i =
     (case st of (j2len, besti, bestj, bestsize) \<Rightarrow>
        foldl (flm_inner j2len i) ([], besti, bestj, bestsize)
          (filter (\<lambda>j. blo \<le> j \<and> j < bhi) (b2j b (a ! i))))"

function extend_left ::
  "string \<Rightarrow> string \<Rightarrow> nat \<Rightarrow> nat \<Rightarrow> nat \<Rightarrow> nat \<Rightarrow> nat \<Rightarrow> nat \<times> nat \<times> nat" where
  "extend_left a b alo blo besti bestj bestsize =
     (if besti > alo \<and> bestj > blo \<and> a ! (besti - 1) = b ! (bestj - 1)
      then extend_left a b alo blo (besti - 1) (bestj - 1) (bestsize + 1)
      else (besti, bestj, bestsize))"
  by pat_completeness auto
termination
  by (relation "measure (\<lambda>(a, b, alo, blo, besti, bestj, bestsize). besti)") auto

declare extend_left.simps [simp del]

function extend_right ::
  "string \<Rightarrow> string \<Rightarrow> nat \<Rightarrow> nat \<Rightarrow> nat \<Rightarrow> nat \<Rightarrow> nat \<Rightarrow> nat" where
  "extend_right a b ahi bhi besti bestj bestsize =
     (if besti + bestsize < ahi \<and> bestj + bestsize < bhi
         \<and> a ! (besti + bestsize) = b ! (bestj + bestsize)
      then extend_right a b ahi bhi besti bestj (bestsize + 1)
      else bestsize)"
  by pat_completeness auto
termination
  by (relation "measure (\<lambda>(a, b, ahi, bhi, besti, bestj, bestsize). ahi - (besti + bestsize))")
    auto

declare extend_right.simps [simp del]

definition find_longest_match ::
  "string \<Rightarrow> string \<Rightarrow> nat \<Rightarrow> nat \<Rightarrow> nat \<Rightarrow> nat \<Rightarrow> nat \<times> nat \<times> nat" where
  "find_longest_match a b alo ahi blo bhi =
     (case foldl (flm_outer a b blo bhi) ([], alo, blo, 0) [alo..<ahi] of
        (j2len, besti0, bestj0, bestsize0) \<Rightarrow>
          (case extend_left a b alo blo besti0 bestj0 bestsize0 of
             (besti, bestj, bestsize1) \<Rightarrow>
               (besti, bestj, extend_right a b ahi bhi besti bestj bestsize1)))"

subsection \<open>The longest match lies inside the range it was looked for in\<close>

lemma j2lenget_le:
  assumes "\<forall>(j', k') \<in> set prev. k' \<le> n"
  shows "j2lenget prev j \<le> n"
proof (cases "j = 0")
  case True
  then show ?thesis by (simp add: j2lenget_def)
next
  case False
  show ?thesis
  proof (cases "map_of prev (j - 1)")
    case None
    with False show ?thesis by (simp add: j2lenget_def)
  next
    case (Some k)
    then have "(j - 1, k) \<in> set prev" by (rule map_of_SomeD)
    with assms have "k \<le> n" by auto
    with Some False show ?thesis by (simp add: j2lenget_def)
  qed
qed

definition a_inv :: "nat \<Rightarrow> nat \<Rightarrow> j2len \<times> nat \<times> nat \<times> nat \<Rightarrow> bool" where
  \<comment> \<open>what the loop over \<^verbatim>\<open>i\<close> keeps true of its state\<close>
  "a_inv alo i st = (case st of (row, besti, bestj, bestsize) \<Rightarrow>
      alo \<le> besti \<and> besti + bestsize \<le> i \<and> (\<forall>(j, k) \<in> set row. k + alo \<le> i))"

lemma flm_inner_a_inv:
  assumes "\<forall>(j', k') \<in> set prev. k' + alo \<le> i" "alo \<le> i" "a_inv alo (Suc i) st"
  shows "a_inv alo (Suc i) (flm_inner prev i st j)"
proof -
  have "j2lenget prev j \<le> i - alo"
    by (rule j2lenget_le) (use assms(1) in auto)
  with assms(2) have k: "j2lenget prev j + 1 + alo \<le> Suc i" by simp
  obtain row bi bj bs where st: "st = (row, bi, bj, bs)" by (cases st) auto
  show ?thesis using assms(3) k unfolding st a_inv_def flm_inner_def
    by (auto simp: Let_def)
qed

lemma foldl_flm_inner_a_inv:
  assumes "\<forall>(j', k') \<in> set prev. k' + alo \<le> i" "alo \<le> i" "a_inv alo (Suc i) st"
  shows "a_inv alo (Suc i) (foldl (flm_inner prev i) st js)"
  using assms(3)
  by (induction js arbitrary: st) (simp_all add: flm_inner_a_inv [OF assms(1,2)])

lemma flm_outer_a_inv:
  assumes "a_inv alo i st" "alo \<le> i"
  shows "a_inv alo (Suc i) (flm_outer a b blo bhi st i)"
proof -
  obtain prev bi bj bs where st: "st = (prev, bi, bj, bs)" by (cases st) auto
  from assms(1) have p: "\<forall>(j', k') \<in> set prev. k' + alo \<le> i"
    and b: "a_inv alo (Suc i) ([], bi, bj, bs)"
    unfolding st a_inv_def by auto
  show ?thesis unfolding st flm_outer_def
    by (simp add: foldl_flm_inner_a_inv [OF p assms(2) b])
qed

lemma foldl_flm_outer_a_inv:
  assumes "alo \<le> ahi"
  shows "a_inv alo ahi (foldl (flm_outer a b blo bhi) ([], alo, blo, 0) [alo..<ahi])"
  using assms
proof (induction ahi)
  case 0
  then show ?case by (simp add: a_inv_def)
next
  case (Suc n)
  show ?case
  proof (cases "alo \<le> n")
    case True
    with Suc.IH
    have "a_inv alo n (foldl (flm_outer a b blo bhi) ([], alo, blo, 0) [alo..<n])" by simp
    from flm_outer_a_inv [OF this True] True show ?thesis by simp
  next
    case False
    with Suc.prems have "alo = Suc n" by simp
    then show ?thesis by (simp add: a_inv_def)
  qed
qed

lemma extend_left_a:
  "extend_left a b alo blo besti bestj bestsize = (i, j, k) \<Longrightarrow> alo \<le> besti \<Longrightarrow>
     alo \<le> i \<and> i + k = besti + bestsize"
proof (induction a b alo blo besti bestj bestsize rule: extend_left.induct)
  case (1 a b alo blo besti bestj bestsize)
  show ?case
  proof (cases "besti > alo \<and> bestj > blo \<and> a ! (besti - 1) = b ! (bestj - 1)")
    case True
    with "1.prems"
    have "extend_left a b alo blo (besti - 1) (bestj - 1) (bestsize + 1) = (i, j, k)"
      by (subst (asm) extend_left.simps) simp
    moreover from True have "alo < besti" by blast
    then have "alo \<le> besti - 1" by arith
    ultimately have "alo \<le> i \<and> i + k = (besti - 1) + (bestsize + 1)"
      by (rule "1.IH" [OF True])
    with True show ?thesis by simp
  next
    case False
    with "1.prems" show ?thesis by (subst (asm) extend_left.simps) auto
  qed
qed

lemma extend_right_a:
  "besti + bestsize \<le> ahi \<Longrightarrow> besti + extend_right a b ahi bhi besti bestj bestsize \<le> ahi
     \<and> bestsize \<le> extend_right a b ahi bhi besti bestj bestsize"
proof (induction a b ahi bhi besti bestj bestsize rule: extend_right.induct)
  case (1 a b ahi bhi besti bestj bestsize)
  show ?case
  proof (cases "besti + bestsize < ahi \<and> bestj + bestsize < bhi
         \<and> a ! (besti + bestsize) = b ! (bestj + bestsize)")
    case True
    then have "besti + (bestsize + 1) \<le> ahi" by simp
    have "extend_right a b ahi bhi besti bestj bestsize
        = extend_right a b ahi bhi besti bestj (bestsize + 1)"
      by (subst extend_right.simps) (use True in simp)
    with "1.IH" [OF True \<open>besti + (bestsize + 1) \<le> ahi\<close>] show ?thesis by simp
  next
    case False
    then have "extend_right a b ahi bhi besti bestj bestsize = bestsize"
      by (subst extend_right.simps) auto
    with "1.prems" show ?thesis by simp
  qed
qed

lemma find_longest_match_empty:
  "ahi \<le> alo \<Longrightarrow> find_longest_match a b alo ahi blo bhi = (alo, blo, 0)"
  by (simp add: find_longest_match_def extend_left.simps [of a b alo blo alo]
      extend_right.simps [of a b ahi bhi alo])

lemma find_longest_match_a:
  assumes "find_longest_match a b alo ahi blo bhi = (i, j, k)" "alo \<le> ahi"
  shows "alo \<le> i \<and> i + k \<le> ahi"
proof -
  obtain row bi bj bs
    where f: "foldl (flm_outer a b blo bhi) ([], alo, blo, 0) [alo..<ahi] = (row, bi, bj, bs)"
    by (cases "foldl (flm_outer a b blo bhi) ([], alo, blo, 0) [alo..<ahi]") auto
  with foldl_flm_outer_a_inv [OF assms(2), of a b blo bhi]
  have 1: "alo \<le> bi" "bi + bs \<le> ahi" by (auto simp: a_inv_def)
  obtain i' j' k' where e: "extend_left a b alo blo bi bj bs = (i', j', k')"
    by (cases "extend_left a b alo blo bi bj bs") auto
  from extend_left_a [OF e 1(1)] 1 have 2: "alo \<le> i'" "i' + k' \<le> ahi" by auto
  from assms(1) f e have "i = i'" "k = extend_right a b ahi bhi i' j' k'"
    by (auto simp: find_longest_match_def)
  with 2 extend_right_a [OF 2(2), of a b bhi j'] show ?thesis by simp
qed

lemma find_longest_match_range:
  assumes "find_longest_match a b alo ahi blo bhi = (i, j, k)" "k \<noteq> 0"
  shows "alo \<le> i \<and> i + k \<le> ahi"
proof (cases "alo \<le> ahi")
  case True
  from find_longest_match_a [OF assms(1) True] show ?thesis .
next
  case False
  then have "find_longest_match a b alo ahi blo bhi = (alo, blo, 0)"
    by (simp add: find_longest_match_empty)
  with assms show ?thesis by simp
qed

text \<open>
  The indices are natural numbers, and \<^verbatim>\<open>i-k+1\<close> and \<^verbatim>\<open>j-k+1\<close> are written \<open>i + 1 - k\<close>
  and \<open>j + 1 - k\<close>. Nothing is cut off: the invariant above gives \<open>k + alo \<le> i + 1\<close>,
  and every row of \<^verbatim>\<open>j2len\<close> has \<open>k \<le> j + 1\<close> at each \<open>j\<close>.
\<close>

definition row_ok :: "j2len \<Rightarrow> bool" where
  \<comment> \<open>a match that ends at \<^verbatim>\<open>b[j]\<close> has at most \<^verbatim>\<open>j + 1\<close> elements\<close>
  "row_ok row = (\<forall>(j, k) \<in> set row. k \<le> j + 1)"

lemma j2lenget_le_index:
  assumes "row_ok prev"
  shows "j2lenget prev j \<le> j"
proof (cases "j = 0")
  case True
  then show ?thesis by (simp add: j2lenget_def)
next
  case False
  show ?thesis
  proof (cases "map_of prev (j - 1)")
    case None
    with False show ?thesis by (simp add: j2lenget_def)
  next
    case (Some k)
    then have "(j - 1, k) \<in> set prev" by (rule map_of_SomeD)
    with assms have "k \<le> (j - 1) + 1" by (auto simp: row_ok_def)
    with Some False show ?thesis by (simp add: j2lenget_def)
  qed
qed

lemma flm_inner_row_ok:
  assumes "row_ok prev" "row_ok (fst st)"
  shows "row_ok (fst (flm_inner prev i st j))"
proof -
  obtain row bi bj bs where st: "st = (row, bi, bj, bs)" by (cases st) auto
  from j2lenget_le_index [OF assms(1), of j] assms(2) show ?thesis
    unfolding st flm_inner_def by (auto simp: Let_def row_ok_def)
qed

lemma foldl_flm_inner_row_ok:
  assumes "row_ok prev" "row_ok (fst st)"
  shows "row_ok (fst (foldl (flm_inner prev i) st js))"
  using assms(2)
  by (induction js arbitrary: st) (simp_all add: flm_inner_row_ok [OF assms(1)])

lemma flm_outer_row_ok:
  assumes "row_ok (fst st)"
  shows "row_ok (fst (flm_outer a b blo bhi st i))"
proof -
  obtain prev bi bj bs where st: "st = (prev, bi, bj, bs)" by (cases st) auto
  have "row_ok (fst (([] :: j2len), bi, bj, bs))" by (simp add: row_ok_def)
  from foldl_flm_inner_row_ok [OF _ this] assms show ?thesis
    unfolding st flm_outer_def by simp
qed

lemma foldl_flm_outer_row_ok:
  "row_ok (fst st) \<Longrightarrow> row_ok (fst (foldl (flm_outer a b blo bhi) st is))"
  by (induction "is" arbitrary: st) (simp_all add: flm_outer_row_ok)

subsection \<open>Matching blocks and the ratio\<close>

type_synonym block = "nat \<times> nat \<times> nat"
type_synonym range4 = "nat \<times> nat \<times> nat \<times> nat"

definition push_ranges :: "range4 \<Rightarrow> block \<Rightarrow> range4 list" where
  \<comment> \<open>the two \<^verbatim>\<open>queue.append\<close>; the queue is a stack whose top is the head of the list,
      so the range appended last comes first\<close>
  "push_ranges r x = (case r of (alo, ahi, blo, bhi) \<Rightarrow> (case x of (i, j, k) \<Rightarrow>
     (if i + k < ahi \<and> j + k < bhi then [(i + k, ahi, j + k, bhi)] else []) @
     (if alo < i \<and> blo < j then [(alo, i, blo, j)] else [])))"

definition range_size :: "range4 \<Rightarrow> nat" where
  "range_size r = (case r of (alo, ahi, blo, bhi) \<Rightarrow> 2 * (ahi - alo) + 1)"

lemma push_ranges_size:
  assumes "find_longest_match a b alo ahi blo bhi = (i, j, k)" "k \<noteq> 0"
  shows "sum_list (map range_size (push_ranges (alo, ahi, blo, bhi) (i, j, k)))
           < range_size (alo, ahi, blo, bhi)"
  using find_longest_match_range [OF assms] assms(2)
  by (auto simp: push_ranges_def range_size_def)

function blocks_loop :: "string \<Rightarrow> string \<Rightarrow> range4 list \<Rightarrow> block list \<Rightarrow> block list" where
  \<comment> \<open>\<^verbatim>\<open>while queue:\<close> of \<^verbatim>\<open>get_matching_blocks\<close>\<close>
  "blocks_loop a b [] matching_blocks = matching_blocks"
| "blocks_loop a b ((alo, ahi, blo, bhi) # queue) matching_blocks =
     (let x = find_longest_match a b alo ahi blo bhi in
      if snd (snd x) \<noteq> 0
      then blocks_loop a b (push_ranges (alo, ahi, blo, bhi) x @ queue) (matching_blocks @ [x])
      else blocks_loop a b queue matching_blocks)"
  by pat_completeness auto
termination
proof (relation "measure (\<lambda>(a, b, queue, acc). sum_list (map range_size queue))")
  show "wf (measure (\<lambda>(a :: string, b :: string, queue, acc :: block list).
          sum_list (map range_size queue)))"
    by simp
next
  fix a b :: string and alo ahi blo bhi queue and matching_blocks :: "block list" and x
  assume x: "x = find_longest_match a b alo ahi blo bhi" and k: "snd (snd x) \<noteq> 0"
  obtain i j k where "find_longest_match a b alo ahi blo bhi = (i, j, k)"
    by (cases "find_longest_match a b alo ahi blo bhi") auto
  with x k push_ranges_size [OF this]
  show "((a, b, push_ranges (alo, ahi, blo, bhi) x @ queue, matching_blocks @ [x]),
          (a, b, (alo, ahi, blo, bhi) # queue, matching_blocks))
        \<in> measure (\<lambda>(a, b, queue, acc). sum_list (map range_size queue))"
    by simp
next
  fix a b :: string and alo ahi blo bhi queue and matching_blocks :: "block list"
  show "((a, b, queue, matching_blocks), (a, b, (alo, ahi, blo, bhi) # queue, matching_blocks))
        \<in> measure (\<lambda>(a, b, queue, acc). sum_list (map range_size queue))"
    by (simp add: range_size_def)
qed

fun merge_adjacent :: "block \<Rightarrow> block list \<Rightarrow> block list" where
  \<comment> \<open>the loop that collapses adjacent equal blocks, \<^verbatim>\<open>(i1, j1, k1)\<close> being the block held\<close>
  "merge_adjacent (i1, j1, k1) [] = (if k1 \<noteq> 0 then [(i1, j1, k1)] else [])"
| "merge_adjacent (i1, j1, k1) ((i2, j2, k2) # rest) =
     (if i1 + k1 = i2 \<and> j1 + k1 = j2 then merge_adjacent (i1, j1, k1 + k2) rest
      else (if k1 \<noteq> 0 then [(i1, j1, k1)] else []) @ merge_adjacent (i2, j2, k2) rest)"

definition get_matching_blocks :: "string \<Rightarrow> string \<Rightarrow> block list" where
  "get_matching_blocks a b =
     merge_adjacent (0, 0, 0) (sort (blocks_loop a b [(0, length a, 0, length b)] []))
       @ [(length a, length b, 0)]"

definition ratio :: "string \<Rightarrow> string \<Rightarrow> rat" where
  "ratio a b =
     (let matches = sum_list (map (\<lambda>triple. snd (snd triple)) (get_matching_blocks a b));
          len = length a + length b
      in if len \<noteq> 0 then 2 * of_nat matches / of_nat len else 1)"

definition title_sim :: "string \<Rightarrow> string \<Rightarrow> rat" where
  "title_sim a b =
     (let a2 = title_norm a; b2 = title_norm b
      in if a2 = [] \<or> b2 = [] then 0 else ratio a2 b2)"

section \<open>Configuration values and news items\<close>

datatype yaml =
  YNull
  | YBool bool
  | YNum rat
  | YStr string
  | YList "yaml list"
  | YDict "(string \<times> yaml) list"

text \<open>
  A value of the configuration file as the loader returns it; \<open>YNull\<close> is Python's
  \<^verbatim>\<open>None\<close>, \<open>YNum\<close> is an integer or a finite float. A mapping keeps its entries in
  order, its keys are strings, each key occurs once and a key is looked up from the front.
\<close>

fun truthy :: "yaml \<Rightarrow> bool" where
  \<comment> \<open>the truth value of a value in \<^verbatim>\<open>if x\<close>, \<^verbatim>\<open>x and ...\<close>, \<^verbatim>\<open>x or ...\<close>\<close>
  "truthy YNull = False"
| "truthy (YBool b) = b"
| "truthy (YNum r) = (r \<noteq> 0)"
| "truthy (YStr s) = (s \<noteq> [])"
| "truthy (YList xs) = (xs \<noteq> [])"
| "truthy (YDict kvs) = (kvs \<noteq> [])"

fun number_of :: "yaml \<Rightarrow> rat option" where
  \<comment> \<open>the number a value is compared as: \<^verbatim>\<open>True\<close> is 1 and \<^verbatim>\<open>False\<close> is 0\<close>
  "number_of (YBool b) = Some (if b then 1 else 0)"
| "number_of (YNum r) = Some r"
| "number_of v = None"

fun py_eq :: "yaml \<Rightarrow> yaml \<Rightarrow> bool" where
  \<comment> \<open>\<^verbatim>\<open>v == w\<close>: numbers and booleans by value, sequences element by element, mappings
      key by key whatever their order\<close>
  "py_eq YNull w = (w = YNull)"
| "py_eq (YBool b) w = (number_of w = Some (if b then 1 else 0))"
| "py_eq (YNum r) w = (number_of w = Some r)"
| "py_eq (YStr s) w = (w = YStr s)"
| "py_eq (YList xs) w = (case w of YList ys \<Rightarrow> list_all2 py_eq xs ys | _ \<Rightarrow> False)"
| "py_eq (YDict kvs) w =
     (case w of
        YDict kvs' \<Rightarrow>
          length kvs = length kvs'
          \<and> list_all (\<lambda>kv. case map_of kvs' (fst kv) of
                               None \<Rightarrow> False
                             | Some v' \<Rightarrow> py_eq (snd kv) v') kvs
      | _ \<Rightarrow> False)"

definition py_in :: "yaml \<Rightarrow> yaml list \<Rightarrow> bool" where
  \<comment> \<open>\<^verbatim>\<open>x in l\<close> on a list: \<^verbatim>\<open>any(x is e or x == e for e in l)\<close>\<close>
  "py_in x l = list_ex (py_eq x) l"

text \<open>
  An item is the dictionary that \<^verbatim>\<open>_collect_one\<close> builds, with the two keys that
  \<^verbatim>\<open>_dedup\<close> may add: \<^verbatim>\<open>alt_links\<close> and \<^verbatim>\<open>alt_sources\<close> are \<open>None\<close> while the key
  is absent. \<^verbatim>\<open>source\<close>, \<^verbatim>\<open>source_id\<close>, \<^verbatim>\<open>language\<close> and \<^verbatim>\<open>feed_url\<close> are the
  values of the configuration as \<^verbatim>\<open>s.get(...)\<close> returns them, whatever their type.
\<close>

record item =
  title :: string
  link :: string
  published_at :: string
  source :: yaml
  source_id :: yaml
  language :: yaml
  weight :: rat
  tags :: "yaml list"
  raw_summary :: string
  feed_url :: yaml
  alt_links :: "string list option"
  alt_sources :: "yaml list option"

section \<open>Deduplication\<close>

definition sort_key_of :: "item \<Rightarrow> string \<times> rat" where
  \<comment> \<open>\<^verbatim>\<open>lambda x: (x.get("published_at", ""), x.get("weight", 0.0))\<close>\<close>
  "sort_key_of x = (published_at x, weight x)"

definition sorted_items :: "item list \<Rightarrow> item list" where
  \<comment> \<open>\<^verbatim>\<open>sorted(items, key=..., reverse=True)\<close>: descending, and items of equal key stay in
      the order of the input\<close>
  "sorted_items items = rev (sort_key sort_key_of (rev items))"

definition setdefault :: "'a list option \<Rightarrow> 'a list" where
  \<comment> \<open>\<^verbatim>\<open>k.setdefault(key, [])\<close>, as the list the key holds afterwards\<close>
  "setdefault v = (case v of None \<Rightarrow> [] | Some l \<Rightarrow> l)"

definition merge_dup :: "item \<Rightarrow> item \<Rightarrow> item" where
  \<comment> \<open>the body of \<^verbatim>\<open>if title_sim(...) >= threshold:\<close>, on the kept item \<^verbatim>\<open>k\<close>\<close>
  "merge_dup k it =
     (let u = link it;
          links = setdefault (alt_links k);
          links' = (if u \<noteq> [] \<and> u \<notin> set links \<and> u \<noteq> link k then links @ [u] else links);
          sources = setdefault (alt_sources k);
          sources' = (if truthy (source it) \<and> \<not> py_in (source it) sources
                         \<and> \<not> py_eq (source it) (source k)
                      then sources @ [source it] else sources)
      in k\<lparr>alt_links := Some links', alt_sources := Some sources'\<rparr>)"

fun merge_first :: "rat \<Rightarrow> item \<Rightarrow> item list \<Rightarrow> item list option" where
  \<comment> \<open>\<^verbatim>\<open>for k in kept:\<close> with its \<^verbatim>\<open>break\<close>: the kept list after the merge when
      \<^verbatim>\<open>is_dup\<close> ends up true, \<open>None\<close> when it stays false\<close>
  "merge_first threshold it [] = None"
| "merge_first threshold it (k # kept) =
     (if title_sim (title it) (title k) \<ge> threshold then Some (merge_dup k it # kept)
      else map_option ((#) k) (merge_first threshold it kept))"

definition dedup_step :: "rat \<Rightarrow> string set \<times> item list \<Rightarrow> item \<Rightarrow> string set \<times> item list" where
  \<comment> \<open>the body of \<^verbatim>\<open>for it in sorted(...)\<close>, on the state \<^verbatim>\<open>(seen_url, kept)\<close>\<close>
  "dedup_step threshold st it =
     (case st of (seen_url, kept) \<Rightarrow>
        let u = link it in
        if u \<noteq> [] \<and> u \<in> seen_url then (seen_url, kept)
        else (case merge_first threshold it kept of
                Some kept' \<Rightarrow> (seen_url, kept')
              | None \<Rightarrow> (if u \<noteq> [] then insert u seen_url else seen_url, kept @ [it])))"

definition dedup_run :: "rat \<Rightarrow> item list \<Rightarrow> string set \<times> item list" where
  \<comment> \<open>the loop of \<^verbatim>\<open>_dedup\<close> over a sequence of items, from the empty state\<close>
  "dedup_run threshold xs = foldl (dedup_step threshold) ({}, []) xs"

definition dedup :: "rat \<Rightarrow> item list \<Rightarrow> item list" where
  \<comment> \<open>\<^verbatim>\<open>_dedup\<close>; the threshold is the variable of \<^verbatim>\<open>collect\<close> that the closure reads\<close>
  "dedup threshold items = snd (dedup_run threshold (sorted_items items))"

subsection \<open>The loop, one step at a time\<close>

lemma dedup_run_Nil: "dedup_run thr [] = ({}, [])"
  by (simp add: dedup_run_def)

lemma dedup_run_snoc: "dedup_run thr (xs @ [x]) = dedup_step thr (dedup_run thr xs) x"
  by (simp add: dedup_run_def)

lemma merge_dup_fields:
  "title (merge_dup k it) = title k"
  "link (merge_dup k it) = link k"
  "published_at (merge_dup k it) = published_at k"
  "weight (merge_dup k it) = weight k"
  "source (merge_dup k it) = source k"
  by (simp_all add: merge_dup_def Let_def)

lemma sort_key_of_merge_dup: "sort_key_of (merge_dup k it) = sort_key_of k"
  by (simp add: sort_key_of_def merge_dup_fields)

lemma merge_first_None_iff:
  "merge_first thr it kept = None \<longleftrightarrow> (\<forall>k \<in> set kept. title_sim (title it) (title k) < thr)"
  by (induction kept) auto

lemma merge_first_Some:
  "merge_first thr it kept = Some kept' \<Longrightarrow>
     \<exists>i < length kept. thr \<le> title_sim (title it) (title (kept ! i))
        \<and> (\<forall>j < i. title_sim (title it) (title (kept ! j)) < thr)
        \<and> kept' = kept[i := merge_dup (kept ! i) it]"
proof (induction kept arbitrary: kept')
  case Nil
  then show ?case by simp
next
  case (Cons k kept)
  show ?case
  proof (cases "thr \<le> title_sim (title it) (title k)")
    case True
    with Cons.prems have "kept' = (k # kept)[0 := merge_dup ((k # kept) ! 0) it]" by auto
    with True show ?thesis by (intro exI [of _ 0]) simp
  next
    case False
    with Cons.prems obtain r where r: "merge_first thr it kept = Some r" "kept' = k # r"
      by auto
    from Cons.IH [OF r(1)] obtain i where i: "i < length kept"
      "thr \<le> title_sim (title it) (title (kept ! i))"
      "\<forall>j < i. title_sim (title it) (title (kept ! j)) < thr"
      "r = kept[i := merge_dup (kept ! i) it]" by blast
    have "\<forall>j < Suc i. title_sim (title it) (title ((k # kept) ! j)) < thr"
      using False i(3) by (auto simp: less_Suc_eq_0_disj)
    with i r(2) show ?thesis by (intro exI [of _ "Suc i"]) simp
  qed
qed

lemma merge_first_index:
  "i < length kept \<Longrightarrow> thr \<le> title_sim (title it) (title (kept ! i)) \<Longrightarrow>
   (\<forall>j < i. title_sim (title it) (title (kept ! j)) < thr) \<Longrightarrow>
   merge_first thr it kept = Some (kept[i := merge_dup (kept ! i) it])"
proof (induction kept arbitrary: i)
  case Nil
  then show ?case by simp
next
  case (Cons k kept)
  show ?case
  proof (cases i)
    case 0
    with Cons.prems show ?thesis by simp
  next
    case (Suc n)
    with Cons.prems have "\<not> thr \<le> title_sim (title it) (title k)" by fastforce
    moreover from Suc Cons.prems have "merge_first thr it kept = Some (kept[n := merge_dup (kept ! n) it])"
      by (intro Cons.IH) auto
    ultimately show ?thesis using Suc by simp
  qed
qed

lemma merge_first_maps:
  assumes "merge_first thr it kept = Some kept'"
  shows "map link kept' = map link kept" "map title kept' = map title kept"
    "map sort_key_of kept' = map sort_key_of kept" "length kept' = length kept"
proof -
  from merge_first_Some [OF assms] obtain i where
    "i < length kept" "kept' = kept[i := merge_dup (kept ! i) it]" by blast
  then show "map link kept' = map link kept" "map title kept' = map title kept"
    "map sort_key_of kept' = map sort_key_of kept" "length kept' = length kept"
    by (simp_all add: map_update merge_dup_fields sort_key_of_merge_dup list_update_same_conv)
qed

definition kept_links :: "item list \<Rightarrow> string set" where
  \<comment> \<open>the links that \<^verbatim>\<open>seen_url\<close> holds once \<^verbatim>\<open>kept\<close> is the kept list\<close>
  "kept_links kept = {u \<in> link ` set kept. u \<noteq> []}"

lemma kept_links_cong: "map link kept' = map link kept \<Longrightarrow> kept_links kept' = kept_links kept"
  unfolding kept_links_def by (metis set_map)

lemma dedup_step_seen:
  assumes "seen = kept_links kept" "dedup_step thr (seen, kept) it = (seen', kept')"
  shows "seen' = kept_links kept'"
proof (cases "link it \<noteq> [] \<and> link it \<in> seen")
  case True
  with assms show ?thesis by (auto simp: dedup_step_def)
next
  case False
  show ?thesis
  proof (cases "merge_first thr it kept")
    case None
    with False assms show ?thesis
      by (auto simp: dedup_step_def kept_links_def Let_def split: if_splits)
  next
    case (Some r)
    with False assms have "seen' = seen" "kept' = r" by (auto simp: dedup_step_def)
    with assms(1) kept_links_cong [OF merge_first_maps(1) [OF Some]] show ?thesis by simp
  qed
qed

lemma fst_dedup_run: "fst (dedup_run thr xs) = kept_links (snd (dedup_run thr xs))"
proof (induction xs rule: rev_induct)
  case Nil
  show ?case by (simp add: dedup_run_Nil kept_links_def)
next
  case (snoc x xs)
  obtain seen kept where s: "dedup_run thr xs = (seen, kept)" by (cases "dedup_run thr xs")
  obtain seen' kept' where s': "dedup_step thr (seen, kept) x = (seen', kept')"
    by (cases "dedup_step thr (seen, kept) x")
  from snoc s have "seen = kept_links kept" by simp
  from dedup_step_seen [OF this s'] show ?case by (simp add: dedup_run_snoc s s')
qed

section \<open>The scenario of the two Fed headlines\<close>

lemma fed_sim: "title_sim ''Fed Cuts Rates by 25bps'' ''Fed cuts rates'' = 28 / 37"
  by code_simp

lemma sorted_items_two:
  assumes "sort_key_of y < sort_key_of x"
  shows "sorted_items [x, y] = [x, y]" "sorted_items [y, x] = [x, y]"
  using assms by (auto simp: sorted_items_def)

text \<open>
  Claim C6. With threshold 0.6, the two items A (published at T, weight 1, title
  "Fed cuts rates", link L1) and B (published one minute earlier, weight 1, title
  "Fed Cuts Rates by 25bps", link L2) give one kept item: A, with \<^verbatim>\<open>alt_links = [L2]\<close>.
  The scenario's items are fresh (A carries no \<^verbatim>\<open>alt_links\<close> yet), L1 and L2 are two
  links and L2 is not empty; the earlier time is the smaller string. The result is the
  same in both input orders; \<^verbatim>\<open>alt_sources\<close> holds B's source name when B has one that
  differs from A's.
\<close>

theorem dedup_fed_scenario:
  assumes "title A = ''Fed cuts rates''" "title B = ''Fed Cuts Rates by 25bps''"
    and "link A = L1" "link B = L2" "L1 \<noteq> L2" "L2 \<noteq> []"
    and "published_at B < published_at A" "weight A = 1" "weight B = 1"
    and "alt_links A = None" "alt_sources A = None"
  shows "dedup (6 / 10) [A, B] = [merge_dup A B] \<and> dedup (6 / 10) [B, A] = [merge_dup A B]
    \<and> merge_dup A B = A\<lparr>alt_links := Some [L2],
         alt_sources := Some (if truthy (source B) \<and> \<not> py_eq (source B) (source A)
           then [source B] else [])\<rparr>"
proof -
  have k: "sort_key_of B < sort_key_of A"
    using assms(7) by (simp add: sort_key_of_def less_prod_def)
  have m: "merge_dup A B = A\<lparr>alt_links := Some [L2],
         alt_sources := Some (if truthy (source B) \<and> \<not> py_eq (source B) (source A)
           then [source B] else [])\<rparr>"
    using assms by (simp add: merge_dup_def setdefault_def py_in_def Let_def)
  have s: "dedup_step (3 / 5) (dedup_step (3 / 5) ({}, []) A) B
      = (if L1 = [] then {} else {L1}, [merge_dup A B])"
    using assms by (auto simp: dedup_step_def fed_sim Let_def)
  have "dedup (6 / 10) [A, B] = [merge_dup A B]"
    by (simp add: dedup_def dedup_run_def sorted_items_two [OF k] s)
  moreover have "dedup (6 / 10) [B, A] = [merge_dup A B]"
    by (simp add: dedup_def dedup_run_def sorted_items_two [OF k] s)
  ultimately show ?thesis using m by simp
qed

theorem dedup_fed_scenario_witness:
  "dedup (6 / 10)
     [\<lparr>title = ''Fed cuts rates'', link = ''https://a.example/fed'',
        published_at = ''2024-05-01T12:00:00+00:00'', source = YStr ''Alpha'',
        source_id = YStr ''alpha'', language = YStr ''en'', weight = 1, tags = [],
        raw_summary = [], feed_url = YStr ''https://a.example/rss'',
        alt_links = None, alt_sources = None\<rparr>,
      \<lparr>title = ''Fed Cuts Rates by 25bps'', link = ''https://b.example/fed'',
        published_at = ''2024-05-01T11:59:00+00:00'', source = YStr ''Beta'',
        source_id = YStr ''beta'', language = YStr ''en'', weight = 1, tags = [],
        raw_summary = [], feed_url = YStr ''https://b.example/rss'',
        alt_links = None, alt_sources = None\<rparr>]
   = [\<lparr>title = ''Fed cuts rates'', link = ''https://a.example/fed'',
        published_at = ''2024-05-01T12:00:00+00:00'', source = YStr ''Alpha'',
        source_id = YStr ''alpha'', language = YStr ''en'', weight = 1, tags = [],
        raw_summary = [], feed_url = YStr ''https://a.example/rss'',
        alt_links = Some [''https://b.example/fed''], alt_sources = Some [YStr ''Beta'']\<rparr>]"
  using dedup_fed_scenario
    [of "\<lparr>title = ''Fed cuts rates'', link = ''https://a.example/fed'',
        published_at = ''2024-05-01T12:00:00+00:00'', source = YStr ''Alpha'',
        source_id = YStr ''alpha'', language = YStr ''en'', weight = 1, tags = [],
        raw_summary = [], feed_url = YStr ''https://a.example/rss'',
        alt_links = None, alt_sources = None\<rparr>"
      "\<lparr>title = ''Fed Cuts Rates by 25bps'', link = ''https://b.example/fed'',
        published_at = ''2024-05-01T11:59:00+00:00'', source = YStr ''Beta'',
        source_id = YStr ''beta'', language = YStr ''en'', weight = 1, tags = [],
        raw_summary = [], feed_url = YStr ''https://b.example/rss'',
        alt_links = None, alt_sources = None\<rparr>"
      "''https://a.example/fed''" "''https://b.example/fed''"]
  by (simp add: less_char_def)

subsection \<open>Properties that every kept item inherits\<close>

lemma set_sorted_items: "set (sorted_items items) = set items"
  by (simp add: sorted_items_def)

lemma merge_first_set:
  "merge_first thr it kept = Some kept' \<Longrightarrow>
     set kept' \<subseteq> set kept \<union> (\<lambda>k. merge_dup k it) ` set kept"
  by (induction kept arbitrary: kept') (auto split: if_splits)

lemma dedup_step_kept_pred:
  assumes "\<And>k it. P k \<Longrightarrow> P (merge_dup k it)" "\<forall>k \<in> set kept. P k" "P it"
  shows "\<forall>k \<in> set (snd (dedup_step thr (seen, kept) it)). P k"
proof (cases "merge_first thr it kept")
  case None
  with assms(2,3) show ?thesis by (auto simp: dedup_step_def Let_def)
next
  case (Some r)
  from merge_first_set [OF Some] assms(1,2) have "\<forall>k \<in> set r. P k" by auto
  with Some assms(2) show ?thesis by (auto simp: dedup_step_def Let_def)
qed

lemma dedup_run_kept_pred:
  assumes "\<And>k it. P k \<Longrightarrow> P (merge_dup k it)" "\<forall>x \<in> set xs. P x"
  shows "\<forall>k \<in> set (snd (dedup_run thr xs)). P k"
  using assms(2)
proof (induction xs rule: rev_induct)
  case Nil
  show ?case by (simp add: dedup_run_Nil)
next
  case (snoc x xs)
  obtain seen kept where s: "dedup_run thr xs = (seen, kept)" by (cases "dedup_run thr xs")
  from snoc s have "\<forall>k \<in> set kept. P k" "P x" by auto
  from dedup_step_kept_pred [of P, OF assms(1) this] show ?case
    by (simp add: dedup_run_snoc s)
qed

lemma dedup_kept_pred:
  assumes "\<And>k it. P k \<Longrightarrow> P (merge_dup k it)" "\<forall>x \<in> set items. P x"
  shows "\<forall>k \<in> set (dedup thr items). P k"
  unfolding dedup_def
  by (rule dedup_run_kept_pred [of P, OF assms(1)]) (simp_all add: set_sorted_items assms(2))

section \<open>What the merge records\<close>

definition fresh_item :: "string \<Rightarrow> string \<Rightarrow> string \<Rightarrow> string \<Rightarrow> item" where
  \<comment> \<open>an item as it enters \<^verbatim>\<open>_dedup\<close>, for the examples: title, link, time of publication and
      source name given, weight 1, neither \<^verbatim>\<open>alt_links\<close> nor \<^verbatim>\<open>alt_sources\<close>\<close>
  "fresh_item t u p s =
     \<lparr>title = t, link = u, published_at = p, source = YStr s, source_id = YStr s,
      language = YNull, weight = 1, tags = [], raw_summary = [], feed_url = YStr [],
      alt_links = None, alt_sources = None\<rparr>"

definition own_free :: "item \<Rightarrow> bool" where
  "own_free k \<longleftrightarrow> (\<forall>l. alt_links k = Some l \<longrightarrow> link k \<notin> set l)
     \<and> (\<forall>l. alt_sources k = Some l \<longrightarrow> (\<forall>e \<in> set l. \<not> py_eq e (source k)))"

lemma own_free_merge_dup: "own_free k \<Longrightarrow> own_free (merge_dup k it)"
  by (auto simp: own_free_def merge_dup_def setdefault_def Let_def split: option.splits if_splits)

text \<open>
  Claim C7. In the output of \<^verbatim>\<open>_dedup\<close> no kept item's \<^verbatim>\<open>alt_links\<close> holds the item's
  own link and no kept item's \<^verbatim>\<open>alt_sources\<close> holds its own source name. \<^verbatim>\<open>_dedup\<close> is
  a closure of \<^verbatim>\<open>collect\<close> and receives the items of \<^verbatim>\<open>_collect_one\<close>, which have
  neither key; the theorem asks less of the input: an item that comes with the keys must
  itself be free of its own link and source name (so the output of \<^verbatim>\<open>_dedup\<close> qualifies
  as well). A list holds a name when one of its elements is \<^verbatim>\<open>==\<close> to it.
\<close>

theorem dedup_alt_excludes_own:
  assumes "\<forall>it \<in> set items. (\<forall>l. alt_links it = Some l \<longrightarrow> link it \<notin> set l)
     \<and> (\<forall>l. alt_sources it = Some l \<longrightarrow> (\<forall>e \<in> set l. \<not> py_eq e (source it)))"
  shows "\<forall>k \<in> set (dedup threshold items). (\<forall>l. alt_links k = Some l \<longrightarrow> link k \<notin> set l)
     \<and> (\<forall>l. alt_sources k = Some l \<longrightarrow> (\<forall>e \<in> set l. \<not> py_eq e (source k)))"
proof -
  from assms have "\<forall>it \<in> set items. own_free it" by (simp add: own_free_def)
  from dedup_kept_pred [of own_free, OF own_free_merge_dup this]
  show ?thesis by (simp add: own_free_def)
qed

theorem dedup_alt_excludes_own_witness:
  "list_all
     (\<lambda>k. link k \<notin> set (setdefault (alt_links k))
        \<and> list_all (\<lambda>e. \<not> py_eq e (source k)) (setdefault (alt_sources k)))
     (dedup (6 / 10)
       [fresh_item ''Fed cuts rates'' ''https://a.example/fed'' ''2024-05-01T12:00:00+00:00'' ''Alpha'',
        fresh_item ''Fed cuts rates'' ''https://b.example/fed'' ''2024-05-01T11:59:00+00:00'' ''Beta''])"
  (is "list_all ?P ?D")
proof -
  have "\<forall>it \<in> set
       [fresh_item ''Fed cuts rates'' ''https://a.example/fed'' ''2024-05-01T12:00:00+00:00'' ''Alpha'',
        fresh_item ''Fed cuts rates'' ''https://b.example/fed'' ''2024-05-01T11:59:00+00:00'' ''Beta''].
      (\<forall>l. alt_links it = Some l \<longrightarrow> link it \<notin> set l)
      \<and> (\<forall>l. alt_sources it = Some l \<longrightarrow> (\<forall>e \<in> set l. \<not> py_eq e (source it)))"
    by (simp add: fresh_item_def)
  from dedup_alt_excludes_own [OF this, of "6 / 10"]
  have h: "\<forall>k \<in> set ?D. (\<forall>l. alt_links k = Some l \<longrightarrow> link k \<notin> set l)
      \<and> (\<forall>l. alt_sources k = Some l \<longrightarrow> (\<forall>e \<in> set l. \<not> py_eq e (source k)))" .
  have "?P k" if k: "k \<in> set ?D" for k
  proof -
    from h k have a: "\<forall>l. alt_links k = Some l \<longrightarrow> link k \<notin> set l"
      and b: "\<forall>l. alt_sources k = Some l \<longrightarrow> (\<forall>e \<in> set l. \<not> py_eq e (source k))"
      by blast+
    from a have "link k \<notin> set (setdefault (alt_links k))"
      by (cases "alt_links k") (simp_all add: setdefault_def)
    moreover from b have "list_all (\<lambda>e. \<not> py_eq e (source k)) (setdefault (alt_sources k))"
      by (cases "alt_sources k") (simp_all add: setdefault_def list_all_iff)
    ultimately show ?thesis by simp
  qed
  then show ?thesis by (simp add: list_all_iff)
qed

section \<open>Items without a link\<close>

definition no_empty_alt :: "item \<Rightarrow> bool" where
  "no_empty_alt k \<longleftrightarrow> (\<forall>l. alt_links k = Some l \<longrightarrow> [] \<notin> set l)"

lemma no_empty_alt_merge_dup: "no_empty_alt k \<Longrightarrow> no_empty_alt (merge_dup k it)"
  by (auto simp: no_empty_alt_def merge_dup_def setdefault_def Let_def split: option.splits if_splits)

lemma sorted_items_two_le:
  "sort_key_of y \<le> sort_key_of x \<Longrightarrow> sorted_items [x, y] = [x, y]"
  by (simp add: sorted_items_def)

text \<open>
  Claim C9. An item whose link is the empty string is never suppressed by its link: two
  such items are both kept when their titles differ enough (here the second is not ahead
  of the first in the order of the sort). The empty string is never in \<^verbatim>\<open>seen_url\<close>,
  whatever sequence the loop has read, and the merge never appends it to \<^verbatim>\<open>alt_links\<close>:
  where no input item brings it in its own \<^verbatim>\<open>alt_links\<close>, no kept item has it.
  \<^verbatim>\<open>_dedup\<close> runs the loop on the sorted input, \<open>xs = sorted_items items\<close>.
\<close>

theorem empty_link_not_suppressed:
  "(link a = [] \<and> link b = [] \<and> sort_key_of b \<le> sort_key_of a
      \<and> title_sim (title b) (title a) < threshold \<longrightarrow> dedup threshold [a, b] = [a, b])
   \<and> [] \<notin> fst (dedup_run threshold xs)
   \<and> ((\<forall>it \<in> set xs. \<forall>l. alt_links it = Some l \<longrightarrow> [] \<notin> set l) \<longrightarrow>
        (\<forall>k \<in> set (snd (dedup_run threshold xs)). \<forall>l. alt_links k = Some l \<longrightarrow> [] \<notin> set l))"
proof (intro conjI impI)
  assume h: "link a = [] \<and> link b = [] \<and> sort_key_of b \<le> sort_key_of a
      \<and> title_sim (title b) (title a) < threshold"
  then have "sorted_items [a, b] = [a, b]" by (simp add: sorted_items_two_le)
  with h show "dedup threshold [a, b] = [a, b]"
    by (simp add: dedup_def dedup_run_def dedup_step_def)
next
  show "[] \<notin> fst (dedup_run threshold xs)"
    by (simp add: fst_dedup_run kept_links_def)
next
  assume "\<forall>it \<in> set xs. \<forall>l. alt_links it = Some l \<longrightarrow> [] \<notin> set l"
  then have "\<forall>it \<in> set xs. no_empty_alt it" by (simp add: no_empty_alt_def)
  from dedup_run_kept_pred [of no_empty_alt, OF no_empty_alt_merge_dup this]
  show "\<forall>k \<in> set (snd (dedup_run threshold xs)). \<forall>l. alt_links k = Some l \<longrightarrow> [] \<notin> set l"
    by (simp add: no_empty_alt_def)
qed

lemma sim_tech_oil: "title_sim ''Tech stocks fall'' ''Oil prices rise'' < 9 / 10"
  by code_simp

theorem empty_link_not_suppressed_witness:
  "dedup (9 / 10)
     [fresh_item ''Oil prices rise'' [] ''2024-05-01T12:00:00+00:00'' ''Alpha'',
      fresh_item ''Tech stocks fall'' [] ''2024-05-01T11:59:00+00:00'' ''Beta'']
   = [fresh_item ''Oil prices rise'' [] ''2024-05-01T12:00:00+00:00'' ''Alpha'',
      fresh_item ''Tech stocks fall'' [] ''2024-05-01T11:59:00+00:00'' ''Beta'']
   \<and> [] \<notin> fst (dedup_run (9 / 10)
       [fresh_item ''Oil prices rise'' [] ''2024-05-01T12:00:00+00:00'' ''Alpha'',
        fresh_item ''Tech stocks fall'' [] ''2024-05-01T11:59:00+00:00'' ''Beta''])
   \<and> list_all (\<lambda>k. [] \<notin> set (setdefault (alt_links k)))
       (snd (dedup_run (9 / 10)
         [fresh_item ''Oil prices rise'' [] ''2024-05-01T12:00:00+00:00'' ''Alpha'',
          fresh_item ''Tech stocks fall'' [] ''2024-05-01T11:59:00+00:00'' ''Beta'']))"
  using empty_link_not_suppressed [of
      "fresh_item ''Oil prices rise'' [] ''2024-05-01T12:00:00+00:00'' ''Alpha''"
      "fresh_item ''Tech stocks fall'' [] ''2024-05-01T11:59:00+00:00'' ''Beta''"
      "9 / 10"
      "[fresh_item ''Oil prices rise'' [] ''2024-05-01T12:00:00+00:00'' ''Alpha'',
        fresh_item ''Tech stocks fall'' [] ''2024-05-01T11:59:00+00:00'' ''Beta'']"]
    sim_tech_oil
  by (auto simp: fresh_item_def sort_key_of_def less_eq_prod_def less_char_def
        list_all_iff setdefault_def split: option.splits)

section \<open>Suppression by link\<close>

lemma dedup_step_links_distinct:
  assumes "seen = kept_links kept" "distinct (filter (\<lambda>u. u \<noteq> []) (map link kept))"
  shows "distinct (filter (\<lambda>u. u \<noteq> []) (map link (snd (dedup_step thr (seen, kept) it))))"
proof (cases "merge_first thr it kept")
  case None
  with assms show ?thesis by (auto simp: dedup_step_def Let_def kept_links_def)
next
  case (Some r)
  with assms merge_first_maps(1) [OF Some] show ?thesis by (auto simp: dedup_step_def Let_def)
qed

lemma dedup_run_links_distinct:
  "distinct (filter (\<lambda>u. u \<noteq> []) (map link (snd (dedup_run thr xs))))"
proof (induction xs rule: rev_induct)
  case Nil
  show ?case by (simp add: dedup_run_Nil)
next
  case (snoc x xs)
  obtain seen kept where s: "dedup_run thr xs = (seen, kept)" by (cases "dedup_run thr xs")
  with fst_dedup_run [of thr xs] have "seen = kept_links kept" by simp
  from dedup_step_links_distinct [OF this] snoc s show ?case by (simp add: dedup_run_snoc)
qed

text \<open>
  Claim C4, amended. No two items of the kept list have the same non-empty link, and an
  item whose non-empty link is the link of an item already kept is discarded outright:
  the state of the loop, \<^verbatim>\<open>seen_url\<close> and every kept item with its \<^verbatim>\<open>alt_links\<close> and
  \<^verbatim>\<open>alt_sources\<close>, is as it was before the item, whatever its title. The claim as stated
  covers every link; the guard \<^verbatim>\<open>if u and u in seen_url\<close> leaves the empty link out.
\<close>

theorem dedup_nonempty_links_distinct:
  "distinct (filter (\<lambda>u. u \<noteq> []) (map link (dedup threshold items)))
   \<and> (link it \<noteq> [] \<and> link it \<in> link ` set (snd (dedup_run threshold xs)) \<longrightarrow>
        dedup_run threshold (xs @ [it]) = dedup_run threshold xs)"
proof (intro conjI impI)
  show "distinct (filter (\<lambda>u. u \<noteq> []) (map link (dedup threshold items)))"
    by (simp add: dedup_def dedup_run_links_distinct)
next
  assume h: "link it \<noteq> [] \<and> link it \<in> link ` set (snd (dedup_run threshold xs))"
  obtain seen kept where s: "dedup_run threshold xs = (seen, kept)"
    by (cases "dedup_run threshold xs")
  with fst_dedup_run [of threshold xs] have "seen = kept_links kept" by simp
  with h s have "link it \<in> seen" by (simp add: kept_links_def)
  with h s show "dedup_run threshold (xs @ [it]) = dedup_run threshold xs"
    by (simp add: dedup_run_snoc dedup_step_def)
qed

theorem dedup_nonempty_links_distinct_witness:
  "dedup_run (9 / 10)
     ([fresh_item ''Oil prices rise'' ''https://a.example/oil'' ''2024-05-01T12:00:00+00:00'' ''Alpha'']
      @ [fresh_item ''Tech stocks fall'' ''https://a.example/oil'' ''2024-05-01T11:59:00+00:00'' ''Beta''])
   = dedup_run (9 / 10)
       [fresh_item ''Oil prices rise'' ''https://a.example/oil'' ''2024-05-01T12:00:00+00:00'' ''Alpha'']"
proof -
  have "link (fresh_item ''Tech stocks fall'' ''https://a.example/oil''
            ''2024-05-01T11:59:00+00:00'' ''Beta'') \<noteq> []
      \<and> link (fresh_item ''Tech stocks fall'' ''https://a.example/oil''
            ''2024-05-01T11:59:00+00:00'' ''Beta'')
        \<in> link ` set (snd (dedup_run (9 / 10)
            [fresh_item ''Oil prices rise'' ''https://a.example/oil''
               ''2024-05-01T12:00:00+00:00'' ''Alpha'']))"
    by (simp add: fresh_item_def dedup_run_def dedup_step_def Let_def)
  with dedup_nonempty_links_distinct [of "9 / 10" "[]"
      "fresh_item ''Tech stocks fall'' ''https://a.example/oil'' ''2024-05-01T11:59:00+00:00'' ''Beta''"
      "[fresh_item ''Oil prices rise'' ''https://a.example/oil'' ''2024-05-01T12:00:00+00:00'' ''Alpha'']"]
  show ?thesis by blast
qed

text \<open>
  Claim C4 as stated fails: two items without a link and with unlike titles are both kept,
  and their links are equal.
\<close>

theorem dedup_equal_links_counterexample:
  "\<not> distinct (map link (dedup (9 / 10)
     [fresh_item ''Oil prices rise'' [] ''2024-05-01T12:00:00+00:00'' ''Alpha'',
      fresh_item ''Tech stocks fall'' [] ''2024-05-01T11:59:00+00:00'' ''Beta'']))"
  by code_simp

section \<open>Merging by title\<close>

lemma sorted_sorted_items: "sorted (rev (map sort_key_of (sorted_items items)))"
  by (simp add: sorted_items_def rev_map)

lemma mset_sorted_items: "mset (sorted_items items) = mset items"
  by (simp add: sorted_items_def)

text \<open>
  Claim C1, amended. \<^verbatim>\<open>_dedup\<close> runs its loop over the items sorted in descending order
  of \<^verbatim>\<open>(published_at, weight)\<close>. Let \<^verbatim>\<open>(seen_url, kept)\<close> be the state after the items
  \<open>xs\<close>, and let the next item not be suppressed by its link (its link is empty or is the
  link of no kept item). If \<open>i\<close> is the first position of the kept list whose title is
  similar to the item's at the threshold or above, the item is not kept and only the
  kept item at \<open>i\<close> changes: the item's link is appended to its \<^verbatim>\<open>alt_links\<close> unless
  the link is empty, is already there or is the primary's own link, and the item's source
  name is appended to its \<^verbatim>\<open>alt_sources\<close> unless the name is missing or otherwise
  false (empty, zero), is already there or is the primary's own, equality being Python's
  \<^verbatim>\<open>==\<close>. If every kept title is similar to the item's strictly
  below the threshold, the item is appended to the kept list. The claim as stated leaves
  out the suppression by link and the two guards on emptiness.
\<close>

theorem dedup_step_by_similarity:
  assumes "dedup_run threshold xs = (seen_url, kept)"
    and "\<not> (link it \<noteq> [] \<and> link it \<in> seen_url)"
  shows "(i < length kept \<and> threshold \<le> title_sim (title it) (title (kept ! i))
          \<and> (\<forall>j < i. title_sim (title it) (title (kept ! j)) < threshold) \<longrightarrow>
          dedup_run threshold (xs @ [it]) =
            (seen_url,
             kept[i := (kept ! i)\<lparr>
               alt_links := Some (
                 if link it \<noteq> [] \<and> link it \<notin> set (setdefault (alt_links (kept ! i)))
                    \<and> link it \<noteq> link (kept ! i)
                 then setdefault (alt_links (kept ! i)) @ [link it]
                 else setdefault (alt_links (kept ! i))),
               alt_sources := Some (
                 if truthy (source it)
                    \<and> \<not> py_in (source it) (setdefault (alt_sources (kept ! i)))
                    \<and> \<not> py_eq (source it) (source (kept ! i))
                 then setdefault (alt_sources (kept ! i)) @ [source it]
                 else setdefault (alt_sources (kept ! i)))\<rparr>]))
     \<and> ((\<forall>k \<in> set kept. title_sim (title it) (title k) < threshold) \<longrightarrow>
          dedup_run threshold (xs @ [it]) =
            (if link it \<noteq> [] then insert (link it) seen_url else seen_url, kept @ [it]))
     \<and> seen_url = {u \<in> link ` set kept. u \<noteq> []}
     \<and> dedup threshold items = snd (dedup_run threshold (sorted_items items))
     \<and> sorted (rev (map sort_key_of (sorted_items items)))
     \<and> mset (sorted_items items) = mset items"
proof (intro conjI impI)
  from assms(2) have c: "(link it \<noteq> [] \<and> link it \<in> seen_url) = False" by blast
  have st: "dedup_run threshold (xs @ [it]) =
      (case merge_first threshold it kept of
         Some kept' \<Rightarrow> (seen_url, kept')
       | None \<Rightarrow> (if link it \<noteq> [] then insert (link it) seen_url else seen_url, kept @ [it]))"
    by (simp only: dedup_run_snoc assms(1) dedup_step_def Let_def prod.case c if_False)
  {
  assume h: "i < length kept \<and> threshold \<le> title_sim (title it) (title (kept ! i))
          \<and> (\<forall>j < i. title_sim (title it) (title (kept ! j)) < threshold)"
  then have "merge_first threshold it kept = Some (kept[i := merge_dup (kept ! i) it])"
    by (intro merge_first_index) auto
  then show "dedup_run threshold (xs @ [it]) =
            (seen_url,
             kept[i := (kept ! i)\<lparr>
               alt_links := Some (
                 if link it \<noteq> [] \<and> link it \<notin> set (setdefault (alt_links (kept ! i)))
                    \<and> link it \<noteq> link (kept ! i)
                 then setdefault (alt_links (kept ! i)) @ [link it]
                 else setdefault (alt_links (kept ! i))),
               alt_sources := Some (
                 if truthy (source it)
                    \<and> \<not> py_in (source it) (setdefault (alt_sources (kept ! i)))
                    \<and> \<not> py_eq (source it) (source (kept ! i))
                 then setdefault (alt_sources (kept ! i)) @ [source it]
                 else setdefault (alt_sources (kept ! i)))\<rparr>])"
    by (simp add: st merge_dup_def Let_def)
  }
  {
  assume "\<forall>k \<in> set kept. title_sim (title it) (title k) < threshold"
  then have "merge_first threshold it kept = None" by (simp add: merge_first_None_iff)
  then show "dedup_run threshold (xs @ [it]) =
            (if link it \<noteq> [] then insert (link it) seen_url else seen_url, kept @ [it])"
    by (simp add: st)
  }
  from fst_dedup_run [of threshold xs] assms(1)
  show "seen_url = {u \<in> link ` set kept. u \<noteq> []}" by (simp add: kept_links_def)
qed (simp_all add: dedup_def sorted_sorted_items mset_sorted_items)

lemma sim_same: "title_sim ''Fed cuts rates'' ''Fed cuts rates'' = 1"
  by code_simp

theorem dedup_step_by_similarity_witness:
  "dedup_run (9 / 10)
     ([fresh_item ''Fed cuts rates'' ''https://a.example/fed'' ''2024-05-01T12:00:00+00:00'' ''Alpha'']
      @ [fresh_item ''Fed cuts rates'' ''https://b.example/fed'' ''2024-05-01T11:59:00+00:00'' ''Beta''])
   = ({''https://a.example/fed''},
      [(fresh_item ''Fed cuts rates'' ''https://a.example/fed'' ''2024-05-01T12:00:00+00:00'' ''Alpha'')
         \<lparr>alt_links := Some [''https://b.example/fed''], alt_sources := Some [YStr ''Beta'']\<rparr>])"
proof -
  have r: "dedup_run (9 / 10)
      [fresh_item ''Fed cuts rates'' ''https://a.example/fed'' ''2024-05-01T12:00:00+00:00'' ''Alpha'']
    = ({''https://a.example/fed''},
       [fresh_item ''Fed cuts rates'' ''https://a.example/fed'' ''2024-05-01T12:00:00+00:00'' ''Alpha''])"
    by (simp add: dedup_run_def dedup_step_def fresh_item_def Let_def)
  have n: "\<not> (link (fresh_item ''Fed cuts rates'' ''https://b.example/fed''
                ''2024-05-01T11:59:00+00:00'' ''Beta'') \<noteq> []
      \<and> link (fresh_item ''Fed cuts rates'' ''https://b.example/fed''
                ''2024-05-01T11:59:00+00:00'' ''Beta'') \<in> {''https://a.example/fed''})"
    by (simp add: fresh_item_def)
  from dedup_step_by_similarity [OF r n, of 0 "[]"] sim_same
  show ?thesis by (simp add: fresh_item_def setdefault_def py_in_def)
qed

text \<open>
  Claim C1 as stated fails on four items at threshold 0.5. The second has no link and
  the title of the first: it merges, and \<^verbatim>\<open>alt_links\<close> stays empty although the empty
  link is neither the primary's link nor present. The third has an unlike title and the
  link of the first: its similarity to the only kept item is below the threshold, and it
  is not kept. The fourth has the title of the first and an empty source name: its link
  is recorded, its source name is not.
\<close>

theorem dedup_step_as_stated_counterexample:
  "title_sim ''Tech stocks fall'' ''Oil prices rise'' < 1 / 2
   \<and> dedup (1 / 2)
       [fresh_item ''Oil prices rise'' ''https://a.example/oil'' ''2024-05-01T12:00:00+00:00'' ''Alpha'',
        fresh_item ''Oil prices rise'' [] ''2024-05-01T11:59:00+00:00'' ''Beta'',
        fresh_item ''Tech stocks fall'' ''https://a.example/oil'' ''2024-05-01T11:58:00+00:00'' ''Gamma'',
        fresh_item ''Oil prices rise'' ''https://d.example/oil'' ''2024-05-01T11:57:00+00:00'' []]
     = [(fresh_item ''Oil prices rise'' ''https://a.example/oil'' ''2024-05-01T12:00:00+00:00'' ''Alpha'')
          \<lparr>alt_links := Some [''https://d.example/oil''], alt_sources := Some [YStr ''Beta'']\<rparr>]"
  by code_simp

section \<open>The order of the input\<close>





section \<open>Running the deduplication twice\<close>












section \<open>The configuration\<close>

datatype py_error =
  AttributeError | TypeError | IndexError | KeyError | ValueError | OverflowError

text \<open>
  An exception that leaves \<^verbatim>\<open>collect\<close> is a \<^typ>\<open>py_error\<close> on the left of a sum; an
  exception that \<^verbatim>\<open>collect\<close> catches at a source is the string \<^verbatim>\<open>str(e)\<close> on the left of
  a sum. What lies outside the program is a parameter: the conversions of the standard
  library on strings, and the feeds as \<^verbatim>\<open>fetch_xml\<close> and \<^verbatim>\<open>parse_items\<close> deliver them. Times
  are seconds since the epoch, as rationals.
\<close>

record entry =
  e_title :: string
  e_link :: string
  e_published_at :: "string option"
  e_raw_summary :: string

record env =
  float_of_str :: "string \<Rightarrow> rat option"
  str_of :: "yaml \<Rightarrow> string"
  format_url :: "yaml \<Rightarrow> yaml \<Rightarrow> string + string"
  fetch_parsed :: "yaml \<Rightarrow> string + entry list"
  fromisoformat :: "string \<Rightarrow> rat option"
  isoformat :: "rat \<Rightarrow> string"

text \<open>
  \<^item> \<^verbatim>\<open>float_of_str\<close>: \<^verbatim>\<open>float(s)\<close> on a string, \<open>None\<close> when it raises;
  \<^item> \<^verbatim>\<open>str_of\<close>: \<^verbatim>\<open>str(v)\<close> on a number, a sequence or a mapping;
  \<^item> \<^verbatim>\<open>format_url t q\<close>: \<^verbatim>\<open>t.format(query=quote(q, safe=""))\<close>, on the left the message
    of what it raises (a template that is no string has no \<^verbatim>\<open>format\<close>);
  \<^item> \<^verbatim>\<open>fetch_parsed url\<close>: \<^verbatim>\<open>parse_items(fetch_xml(url))\<close>, the dictionaries of the feed
    with the keys \<^verbatim>\<open>title\<close>, \<^verbatim>\<open>link\<close>, \<^verbatim>\<open>published_at\<close> and \<^verbatim>\<open>raw_summary\<close>, or on the
    left the message of what the request or the parser raises;
  \<^item> \<^verbatim>\<open>fromisoformat s\<close>: \<^verbatim>\<open>datetime.fromisoformat(s).astimezone(timezone.utc)\<close>, \<open>None\<close>
    when it raises;
  \<^item> \<^verbatim>\<open>isoformat\<close>: \<^verbatim>\<open>dt.isoformat()\<close>.
\<close>

definition and_then :: "'e + 'a \<Rightarrow> ('a \<Rightarrow> 'e + 'b) \<Rightarrow> 'e + 'b" where
  \<comment> \<open>one statement after another: the exception of the first ends the run\<close>
  "and_then r f = (case r of Inl e \<Rightarrow> Inl e | Inr v \<Rightarrow> f v)"

fun dict_get :: "yaml \<Rightarrow> string \<Rightarrow> py_error + yaml option" where
  \<comment> \<open>\<^verbatim>\<open>x.get(key)\<close>: only a mapping has the method\<close>
  "dict_get (YDict kvs) key = Inr (map_of kvs key)"
| "dict_get x key = Inl AttributeError"

definition get_default :: "yaml \<Rightarrow> string \<Rightarrow> yaml \<Rightarrow> py_error + yaml" where
  \<comment> \<open>\<^verbatim>\<open>x.get(key, default)\<close>; \<^verbatim>\<open>x.get(key)\<close> is \<^verbatim>\<open>x.get(key, None)\<close>\<close>
  "get_default x key d =
     and_then (dict_get x key) (\<lambda>v. Inr (case v of None \<Rightarrow> d | Some y \<Rightarrow> y))"

fun index1 :: "yaml \<Rightarrow> py_error + yaml" where
  \<comment> \<open>\<^verbatim>\<open>x[1]\<close>; the keys of a mapping are strings, so 1 is not among them\<close>
  "index1 (YList xs) = (if 2 \<le> length xs then Inr (xs ! 1) else Inl IndexError)"
| "index1 (YStr s) = (if 2 \<le> length s then Inr (YStr [s ! 1]) else Inl IndexError)"
| "index1 (YDict kvs) = Inl KeyError"
| "index1 x = Inl TypeError"

definition float_limit :: rat where
  \<comment> \<open>the least magnitude that \<^verbatim>\<open>float\<close> rounds beyond the largest double\<close>
  "float_limit = 2 ^ 1024 - 2 ^ 970"

lemma float_limit_code [code]:
  "float_limit =
     179769313486231580793728971405303415079934132710037826936173778980444968292764750946649017977587207096330286416692887910946555547851940402630657488671505820681908902000708383676273854845817711531764475730270069855571366959622842914819860834936475292719074168444365510704342711559699508093042880177904174497792"
  by (simp add: float_limit_def)

fun to_float :: "env \<Rightarrow> yaml \<Rightarrow> py_error + rat" where
  \<comment> \<open>\<^verbatim>\<open>float(x)\<close>; a number at the limit or beyond it is an integer too large for a
      float\<close>
  "to_float env (YNum r) = (if float_limit \<le> \<bar>r\<bar> then Inl OverflowError else Inr r)"
| "to_float env (YBool b) = Inr (if b then 1 else 0)"
| "to_float env (YStr s) =
     (case float_of_str env s of None \<Rightarrow> Inl ValueError | Some r \<Rightarrow> Inr r)"
| "to_float env x = Inl TypeError"

lemma to_float_small: "\<bar>r\<bar> \<le> 1 \<Longrightarrow> to_float env (YNum r) = Inr r"
proof -
  have "(1 :: rat) < float_limit" by (simp add: float_limit_def)
  then show "\<bar>r\<bar> \<le> 1 \<Longrightarrow> to_float env (YNum r) = Inr r" by simp
qed

definition threshold_of :: "env \<Rightarrow> yaml \<Rightarrow> py_error + rat" where
  \<comment> \<open>the first statement of \<^verbatim>\<open>collect\<close> after the configuration is loaded\<close>
  "threshold_of env cfg =
     and_then (get_default cfg ''global'' (YDict [])) (\<lambda>g.
     and_then (get_default g ''deduplication'' (YDict [])) (\<lambda>d.
     and_then (get_default d ''rules'' (YList [YDict [], YDict []])) (\<lambda>rules.
     and_then (index1 rules) (\<lambda>rule.
     and_then (get_default rule ''threshold'' (YNum (9 / 10))) (to_float env)))))"

record source =
  src_id :: yaml
  src_name :: yaml
  src_type :: yaml
  src_url :: yaml
  src_url_template :: yaml
  src_query :: yaml
  src_language :: yaml
  src_weight :: rat
  src_tags :: "yaml list"

text \<open>
  The dataclass \<^verbatim>\<open>Source\<close>, its fields prefixed. Nothing checks the types that the
  dataclass declares: a field holds the value of the configuration, a number as well as
  a string, and \<open>YNull\<close> where the key is missing.
\<close>

fun or_empty_list :: "yaml \<Rightarrow> py_error + yaml list" where
  \<comment> \<open>the elements that \<^verbatim>\<open>x or []\<close> yields when it is iterated\<close>
  "or_empty_list (YList xs) = Inr xs"
| "or_empty_list (YStr s) = Inr (map (\<lambda>c. YStr [c]) s)"
| "or_empty_list (YDict kvs) = Inr (map (\<lambda>kv. YStr (fst kv)) kvs)"
| "or_empty_list x = (if truthy x then Inl TypeError else Inr [])"

definition read_source :: "env \<Rightarrow> yaml \<Rightarrow> py_error + source" where
  \<comment> \<open>\<^verbatim>\<open>Source(id=s.get("id"), ...)\<close>, the arguments in their order\<close>
  "read_source env s =
     and_then (get_default s ''id'' YNull) (\<lambda>i.
     and_then (get_default s ''name'' YNull) (\<lambda>n.
     and_then (get_default s ''type'' YNull) (\<lambda>t.
     and_then (get_default s ''url'' YNull) (\<lambda>u.
     and_then (get_default s ''url_template'' YNull) (\<lambda>ut.
     and_then (get_default s ''query'' YNull) (\<lambda>q.
     and_then (get_default s ''language'' YNull) (\<lambda>l.
     and_then (and_then (get_default s ''weight'' (YNum 1)) (to_float env)) (\<lambda>w.
     and_then (and_then (get_default s ''tags'' (YList [])) or_empty_list) (\<lambda>tg.
       Inr \<lparr>src_id = i, src_name = n, src_type = t, src_url = u, src_url_template = ut,
            src_query = q, src_language = l, src_weight = w, src_tags = tg\<rparr>)))))))))"

fun read_all :: "('a \<Rightarrow> py_error + 'b list) \<Rightarrow> 'a list \<Rightarrow> py_error + 'b list" where
  \<comment> \<open>a loop that extends \<^verbatim>\<open>out\<close> and ends at the first exception\<close>
  "read_all f [] = Inr []"
| "read_all f (x # xs) =
     and_then (f x) (\<lambda>ys. and_then (read_all f xs) (\<lambda>zs. Inr (ys @ zs)))"

definition read_tier :: "env \<Rightarrow> yaml \<Rightarrow> py_error + source list" where
  \<comment> \<open>the body of \<^verbatim>\<open>for tier in block.values()\<close>\<close>
  "read_tier env tier =
     (case tier of
        YDict kvs \<Rightarrow>
          and_then (and_then (get_default tier ''sources'' (YList [])) or_empty_list)
            (read_all (\<lambda>s. and_then (read_source env s) (\<lambda>src. Inr [src])))
      | _ \<Rightarrow> Inr [])"

definition read_block :: "env \<Rightarrow> yaml \<Rightarrow> py_error + source list" where
  \<comment> \<open>\<^verbatim>\<open>_read_block\<close>\<close>
  "read_block env block =
     (case block of
        YDict kvs \<Rightarrow> read_all (read_tier env) (map snd kvs)
      | _ \<Rightarrow> Inl AttributeError)"

definition load_sources :: "env \<Rightarrow> yaml \<Rightarrow> py_error + (string \<times> source list) list" where
  "load_sources env cfg =
     and_then (and_then (get_default cfg ''taiwan'' (YDict [])) (read_block env)) (\<lambda>tw.
     and_then (and_then (get_default cfg ''global_markets'' (YDict [])) (read_block env)) (\<lambda>gl.
       Inr [(''taiwan'', tw), (''global'', gl)]))"

section \<open>Collecting\<close>

fun py_str :: "env \<Rightarrow> yaml \<Rightarrow> string" where
  \<comment> \<open>a field in an f-string\<close>
  "py_str env (YStr s) = s"
| "py_str env YNull = ''None''"
| "py_str env (YBool b) = (if b then ''True'' else ''False'')"
| "py_str env v = str_of env v"

definition build_url :: "env \<Rightarrow> source \<Rightarrow> string + yaml" where
  "build_url env src =
     (if \<not> py_eq (src_type src) (YStr ''rss'')
      then Inl (''Unsupported source type: '' @ py_str env (src_type src))
      else if truthy (src_url src) then Inr (src_url src)
      else if truthy (src_url_template src) \<and> src_query src \<noteq> YNull
      then and_then (format_url env (src_url_template src) (src_query src))
             (\<lambda>u. Inr (YStr u))
      else Inl (''Source '' @ py_str env (src_id src) @ '' missing url or url_template''))"

definition canonical_url :: "string \<Rightarrow> string" where
  "canonical_url u = strip u"

definition replace_Z :: "string \<Rightarrow> string" where
  \<comment> \<open>\<^verbatim>\<open>s.replace("Z", "+00:00")\<close>\<close>
  "replace_Z s = concat (map (\<lambda>c. if c = CHR ''Z'' then ''+00:00'' else [c]) s)"

definition entry_time :: "env \<Rightarrow> entry \<Rightarrow> rat option" where
  \<comment> \<open>\<^verbatim>\<open>dt\<close> before \<^verbatim>\<open>if not dt: continue\<close>: the time of the entry, \<open>None\<close> when
      \<^verbatim>\<open>published_at\<close> is \<^verbatim>\<open>None\<close> or empty, or does not parse\<close>
  "entry_time env e =
     (case e_published_at e of
        None \<Rightarrow> None
      | Some s \<Rightarrow> if s = [] then None else fromisoformat env (replace_Z s))"

definition make_item :: "env \<Rightarrow> source \<Rightarrow> yaml \<Rightarrow> entry \<Rightarrow> rat \<Rightarrow> item" where
  \<comment> \<open>the dictionary that \<^verbatim>\<open>_collect_one\<close> appends\<close>
  "make_item env src url e dt =
     \<lparr>title = strip (e_title e), link = canonical_url (e_link e),
      published_at = isoformat env dt, source = src_name src, source_id = src_id src,
      language = src_language src, weight = src_weight src, tags = src_tags src,
      raw_summary = strip (e_raw_summary e), feed_url = url,
      alt_links = None, alt_sources = None\<rparr>"

fun filter_entries :: "env \<Rightarrow> rat \<Rightarrow> source \<Rightarrow> yaml \<Rightarrow> entry list \<Rightarrow> item list" where
  \<comment> \<open>\<^verbatim>\<open>for e in parsed:\<close> with its two \<^verbatim>\<open>continue\<close>\<close>
  "filter_entries env cutoff src url [] = []"
| "filter_entries env cutoff src url (e # parsed) =
     (case entry_time env e of
        None \<Rightarrow> filter_entries env cutoff src url parsed
      | Some dt \<Rightarrow>
          if dt < cutoff then filter_entries env cutoff src url parsed
          else make_item env src url e dt # filter_entries env cutoff src url parsed)"

definition collect_one :: "env \<Rightarrow> rat \<Rightarrow> source \<Rightarrow> string + item list" where
  \<comment> \<open>\<^verbatim>\<open>_collect_one\<close>; the cutoff is the variable of \<^verbatim>\<open>collect\<close> that the closure reads\<close>
  "collect_one env cutoff src =
     and_then (build_url env src) (\<lambda>url.
     and_then (fetch_parsed env url) (\<lambda>parsed.
       Inr (filter_entries env cutoff src url parsed)))"

definition collect_source ::
  "env \<Rightarrow> rat \<Rightarrow> item list \<times> (yaml \<times> string) list \<Rightarrow> source
     \<Rightarrow> item list \<times> (yaml \<times> string) list" where
  \<comment> \<open>the \<^verbatim>\<open>try\<close> statement, on the state \<^verbatim>\<open>(all_items, errors)\<close>\<close>
  "collect_source env cutoff st src =
     (case st of (all_items, errors) \<Rightarrow>
        (case collect_one env cutoff src of
           Inr its \<Rightarrow> (all_items @ its, errors)
         | Inl msg \<Rightarrow> (all_items, errors @ [(src_id src, msg)])))"

record region_result =
  reg_items :: "item list"
  reg_errors :: "(yaml \<times> string) list"
  reg_sources :: "yaml list"

definition collect_region :: "env \<Rightarrow> rat \<Rightarrow> rat \<Rightarrow> source list \<Rightarrow> region_result" where
  \<comment> \<open>the body of \<^verbatim>\<open>for region, srcs in sources.items()\<close>\<close>
  "collect_region env threshold cutoff srcs =
     (case foldl (collect_source env cutoff) ([], []) srcs of
        (all_items, errors) \<Rightarrow>
          \<lparr>reg_items = dedup threshold all_items, reg_errors = errors,
           reg_sources = map src_id srcs\<rparr>)"

datatype pyfloat = Finite rat | PosInf | NegInf | NaN

text \<open>
  \<^verbatim>\<open>window_hours\<close> is the float of the command line, which may be an infinity or not a
  number. \<^verbatim>\<open>now_utc() - timedelta(hours=window_hours)\<close> stands outside every \<^verbatim>\<open>try\<close>:
  \<^verbatim>\<open>timedelta\<close> raises \<^verbatim>\<open>ValueError\<close> on what is not a number and \<^verbatim>\<open>OverflowError\<close> on an
  infinity and on more than 999999999 days, and the subtraction raises \<^verbatim>\<open>OverflowError\<close>
  when the result is not a date of the years 1 to 9999.
\<close>

definition in_datetime_range :: "rat \<Rightarrow> bool" where
  \<comment> \<open>from 0001-01-01T00:00:00 to the end of 9999-12-31, in seconds since the epoch\<close>
  "in_datetime_range t \<longleftrightarrow> - 62135596800 \<le> t \<and> t < 253402300800"

fun cutoff_of :: "rat \<Rightarrow> pyfloat \<Rightarrow> py_error + rat" where
  \<comment> \<open>\<^verbatim>\<open>now - timedelta(hours=window_hours)\<close>\<close>
  "cutoff_of now (Finite w) =
     (if 999999999 < \<bar>\<lfloor>w / 24\<rfloor>\<bar> then Inl OverflowError
      else if in_datetime_range (now - w * 3600) then Inr (now - w * 3600)
      else Inl OverflowError)"
| "cutoff_of now PosInf = Inl OverflowError"
| "cutoff_of now NegInf = Inl OverflowError"
| "cutoff_of now NaN = Inl ValueError"

record collection_result =
  out_generated_at :: string
  out_window_hours :: pyfloat
  out_cutoff_utc :: string
  out_regions :: "(string \<times> region_result) list"

definition collect ::
  "env \<Rightarrow> yaml \<Rightarrow> pyfloat \<Rightarrow> rat \<Rightarrow> rat \<Rightarrow> py_error + collection_result" where
  \<comment> \<open>\<^verbatim>\<open>collect\<close> on the loaded configuration; \<open>now1\<close> and \<open>now2\<close> are the two readings of
      the clock, the first for the cutoff, the second for \<^verbatim>\<open>generated_at\<close>\<close>
  "collect env cfg window_hours now1 now2 =
     and_then (threshold_of env cfg) (\<lambda>threshold.
     and_then (load_sources env cfg) (\<lambda>sources.
     and_then (cutoff_of now1 window_hours) (\<lambda>cutoff.
       Inr \<lparr>out_generated_at = isoformat env now2, out_window_hours = window_hours,
            out_cutoff_utc = isoformat env cutoff,
            out_regions =
              map (\<lambda>(region, srcs). (region, collect_region env threshold cutoff srcs))
                sources\<rparr>)))"

section \<open>Faults of a source, faults of the configuration\<close>

definition example_source :: "string \<Rightarrow> string \<Rightarrow> source" where
  \<comment> \<open>for the examples: an RSS source with a direct URL, named by its id\<close>
  "example_source i u =
     \<lparr>src_id = YStr i, src_name = YStr i, src_type = YStr ''rss'', src_url = YStr u,
      src_url_template = YNull, src_query = YNull, src_language = YNull, src_weight = 1,
      src_tags = []\<rparr>"

definition example_env :: env where
  \<comment> \<open>for the examples: the feed of \<^verbatim>\<open>a\<close> has a recent entry, an undated one and an old one,
      the feed of \<^verbatim>\<open>c\<close> has one recent entry and every other URL fails; a time is written
      as its hour and minute, noon being 43200 seconds\<close>
  "example_env =
     \<lparr>float_of_str = (\<lambda>s. None),
      str_of = (\<lambda>v. ''a value''),
      format_url = (\<lambda>t q. Inl ''no template''),
      fetch_parsed = (\<lambda>url.
        if url = YStr ''https://a.example/rss'' then
          Inr [\<lparr>e_title = ''Oil prices rise'', e_link = ''https://a.example/oil'',
                 e_published_at = Some ''11:30'', e_raw_summary = []\<rparr>,
               \<lparr>e_title = ''Undated note'', e_link = ''https://a.example/note'',
                 e_published_at = None, e_raw_summary = []\<rparr>,
               \<lparr>e_title = ''Morning wrap'', e_link = ''https://a.example/wrap'',
                 e_published_at = Some ''09:00'', e_raw_summary = []\<rparr>]
        else if url = YStr ''https://c.example/rss'' then
          Inr [\<lparr>e_title = ''Tech stocks fall'', e_link = ''https://c.example/tech'',
                 e_published_at = Some ''11:45'', e_raw_summary = []\<rparr>]
        else Inl ''503 Server Error''),
      fromisoformat = (\<lambda>s.
        if s = ''11:30'' then Some 41400
        else if s = ''11:45'' then Some 42300
        else if s = ''09:00'' then Some 32400
        else None),
      isoformat = (\<lambda>t.
        if t = 41400 then ''11:30''
        else if t = 42300 then ''11:45''
        else if t = 36000 then ''10:00''
        else if t = 43200 then ''12:00''
        else ''other'')\<rparr>"

definition example_cfg :: yaml where
  \<comment> \<open>for the examples: one source in the first group, no threshold configured\<close>
  "example_cfg =
     YDict [(''taiwan'', YDict [(''tier1'', YDict [(''sources'', YList
       [YDict [(''id'', YStr ''a''), (''name'', YStr ''a''), (''type'', YStr ''rss''),
               (''url'', YStr ''https://a.example/rss'')]])])])]"

lemma foldl_collect_source:
  "foldl (collect_source env cutoff) (all_items, errors) srcs =
     (all_items @ concat (map (\<lambda>s. case collect_one env cutoff s of
                                      Inl m \<Rightarrow> [] | Inr its \<Rightarrow> its) srcs),
      errors @ concat (map (\<lambda>s. case collect_one env cutoff s of
                                   Inl m \<Rightarrow> [(src_id s, m)] | Inr its \<Rightarrow> []) srcs))"
  by (induction srcs arbitrary: all_items errors)
    (auto simp: collect_source_def split: sum.splits)

lemma dedup_Nil: "dedup thr [] = []"
  by (simp add: dedup_def sorted_items_def dedup_run_def)

text \<open>
  Claim C8. \<^verbatim>\<open>collect\<close> does not fail because a source does. In a region, the error
  list has one entry \<^verbatim>\<open>(source id, message)\<close> for each source whose \<^verbatim>\<open>_collect_one\<close>
  raises, in the order of the sources and nothing else; the items are the deduplicated
  items of the sources that did not raise, so a failing source contributes none and the
  sources after it are still read; \<^verbatim>\<open>sources\<close> lists every id. \<^verbatim>\<open>_collect_one\<close> raises
  when the URL cannot be built and when the fetch or the parser raises. When every source
  fails, the items are empty and the errors name every source. And once the threshold and
  the sources have been read from the configuration and the cutoff has been computed from
  the clock and \<^verbatim>\<open>window_hours\<close>, none of which reads a feed, \<^verbatim>\<open>collect\<close> returns the
  document, whatever the feeds do; the only exceptions that leave \<^verbatim>\<open>collect\<close> are those
  of these three steps.
\<close>

theorem collect_isolates_source_faults:
  "reg_errors (collect_region env threshold cutoff srcs) =
     concat (map (\<lambda>s. case collect_one env cutoff s of
                         Inl m \<Rightarrow> [(src_id s, m)] | Inr its \<Rightarrow> []) srcs)
   \<and> reg_items (collect_region env threshold cutoff srcs) =
     dedup threshold (concat (map (\<lambda>s. case collect_one env cutoff s of
                                          Inl m \<Rightarrow> [] | Inr its \<Rightarrow> its) srcs))
   \<and> reg_sources (collect_region env threshold cutoff srcs) = map src_id srcs
   \<and> (build_url env src = Inl m \<longrightarrow> collect_one env cutoff src = Inl m)
   \<and> (build_url env src = Inr url \<and> fetch_parsed env url = Inl m \<longrightarrow>
        collect_one env cutoff src = Inl m)
   \<and> ((\<forall>s \<in> set srcs. \<exists>m. collect_one env cutoff s = Inl m) \<longrightarrow>
        reg_items (collect_region env threshold cutoff srcs) = []
        \<and> map fst (reg_errors (collect_region env threshold cutoff srcs)) = map src_id srcs)
   \<and> (threshold_of env cfg = Inr threshold \<and> load_sources env cfg = Inr sources
        \<and> cutoff_of now1 window_hours = Inr cutoff' \<longrightarrow>
        collect env cfg window_hours now1 now2 =
          Inr \<lparr>out_generated_at = isoformat env now2, out_window_hours = window_hours,
               out_cutoff_utc = isoformat env cutoff',
               out_regions =
                 map (\<lambda>(region, srcs). (region, collect_region env threshold cutoff' srcs))
                   sources\<rparr>)
   \<and> (collect env cfg window_hours now1 now2 = Inl err \<longrightarrow>
        threshold_of env cfg = Inl err \<or> load_sources env cfg = Inl err
        \<or> cutoff_of now1 window_hours = Inl err)"
proof -
  have r: "collect_region env threshold cutoff srcs =
     \<lparr>reg_items = dedup threshold (concat (map (\<lambda>s. case collect_one env cutoff s of
                                          Inl m \<Rightarrow> [] | Inr its \<Rightarrow> its) srcs)),
      reg_errors = concat (map (\<lambda>s. case collect_one env cutoff s of
                         Inl m \<Rightarrow> [(src_id s, m)] | Inr its \<Rightarrow> []) srcs),
      reg_sources = map src_id srcs\<rparr>"
    by (simp add: collect_region_def foldl_collect_source)
  have a: "(\<forall>s \<in> set srcs. \<exists>m. collect_one env cutoff s = Inl m) \<Longrightarrow>
      concat (map (\<lambda>s. case collect_one env cutoff s of Inl m \<Rightarrow> [] | Inr its \<Rightarrow> its) srcs) = []
      \<and> map fst (concat (map (\<lambda>s. case collect_one env cutoff s of
                         Inl m \<Rightarrow> [(src_id s, m)] | Inr its \<Rightarrow> []) srcs)) = map src_id srcs"
    by (induction srcs) auto
  have b: "build_url env src = Inl m \<longrightarrow> collect_one env cutoff src = Inl m"
    by (simp add: collect_one_def and_then_def)
  have c: "build_url env src = Inr url \<and> fetch_parsed env url = Inl m \<longrightarrow>
        collect_one env cutoff src = Inl m"
    by (simp add: collect_one_def and_then_def)
  have d: "(\<forall>s \<in> set srcs. \<exists>m. collect_one env cutoff s = Inl m) \<longrightarrow>
        reg_items (collect_region env threshold cutoff srcs) = []
        \<and> map fst (reg_errors (collect_region env threshold cutoff srcs)) = map src_id srcs"
  proof
    assume h: "\<forall>s \<in> set srcs. \<exists>m. collect_one env cutoff s = Inl m"
    from a [OF h]
    have 1: "concat (map (\<lambda>s. case collect_one env cutoff s of
                 Inl m \<Rightarrow> [] | Inr its \<Rightarrow> its) srcs) = []"
      and 2: "map fst (concat (map (\<lambda>s. case collect_one env cutoff s of
                 Inl m \<Rightarrow> [(src_id s, m)] | Inr its \<Rightarrow> []) srcs)) = map src_id srcs"
      by blast+
    have "reg_items (collect_region env threshold cutoff srcs) = dedup threshold []"
      by (simp only: r 1 region_result.simps)
    then have i: "reg_items (collect_region env threshold cutoff srcs) = []"
      by (simp only: dedup_Nil)
    have ii: "map fst (reg_errors (collect_region env threshold cutoff srcs)) = map src_id srcs"
      by (simp only: r 2 region_result.simps)
    from i ii
    show "reg_items (collect_region env threshold cutoff srcs) = []
        \<and> map fst (reg_errors (collect_region env threshold cutoff srcs)) = map src_id srcs"
      by blast
  qed
  have e: "threshold_of env cfg = Inr threshold \<and> load_sources env cfg = Inr sources
        \<and> cutoff_of now1 window_hours = Inr cutoff' \<longrightarrow>
        collect env cfg window_hours now1 now2 =
          Inr \<lparr>out_generated_at = isoformat env now2, out_window_hours = window_hours,
               out_cutoff_utc = isoformat env cutoff',
               out_regions =
                 map (\<lambda>(region, srcs). (region, collect_region env threshold cutoff' srcs))
                   sources\<rparr>"
    by (simp add: collect_def and_then_def)
  have f: "collect env cfg window_hours now1 now2 = Inl err \<longrightarrow>
        threshold_of env cfg = Inl err \<or> load_sources env cfg = Inl err
        \<or> cutoff_of now1 window_hours = Inl err"
    by (auto simp: collect_def and_then_def split: sum.splits)
  from b c d e f show ?thesis by (simp add: r)
qed

lemma example_config_steps:
  "threshold_of example_env example_cfg = Inr (9 / 10)"
  "load_sources example_env example_cfg =
     Inr [(''taiwan'', [example_source ''a'' ''https://a.example/rss'']), (''global'', [])]"
  "cutoff_of 43200 (Finite 2) = Inr 36000"
  by code_simp+

lemma example_window_too_large:
  "collect example_env example_cfg (Finite 20000000) 43200 43201 = Inl OverflowError"
  by code_simp

theorem collect_isolates_source_faults_witness:
  "reg_errors (collect_region example_env (9 / 10) 36000
      [example_source ''a'' ''https://a.example/rss'',
       (example_source ''b'' ''https://b.example/rss'')\<lparr>src_id := YNum 2330\<rparr>,
       example_source ''c'' ''https://c.example/rss''])
    = [(YNum 2330, ''503 Server Error'')]
   \<and> reg_sources (collect_region example_env (9 / 10) 36000
      [example_source ''a'' ''https://a.example/rss'',
       (example_source ''b'' ''https://b.example/rss'')\<lparr>src_id := YNum 2330\<rparr>,
       example_source ''c'' ''https://c.example/rss''])
    = [YStr ''a'', YNum 2330, YStr ''c'']
   \<and> reg_items (collect_region example_env (9 / 10) 36000
      [example_source ''a'' ''https://a.example/rss'',
       (example_source ''b'' ''https://b.example/rss'')\<lparr>src_id := YNum 2330\<rparr>,
       example_source ''c'' ''https://c.example/rss''])
    = dedup (9 / 10)
       [make_item example_env (example_source ''a'' ''https://a.example/rss'')
          (YStr ''https://a.example/rss'')
          \<lparr>e_title = ''Oil prices rise'', e_link = ''https://a.example/oil'',
            e_published_at = Some ''11:30'', e_raw_summary = []\<rparr> 41400,
        make_item example_env (example_source ''c'' ''https://c.example/rss'')
          (YStr ''https://c.example/rss'')
          \<lparr>e_title = ''Tech stocks fall'', e_link = ''https://c.example/tech'',
            e_published_at = Some ''11:45'', e_raw_summary = []\<rparr> 42300]
   \<and> collect example_env example_cfg (Finite 2) 43200 43201 =
       Inr \<lparr>out_generated_at = ''other'', out_window_hours = Finite 2,
            out_cutoff_utc = ''10:00'',
            out_regions =
              [(''taiwan'', collect_region example_env (9 / 10) 36000
                              [example_source ''a'' ''https://a.example/rss'']),
               (''global'', collect_region example_env (9 / 10) 36000 [])]\<rparr>
   \<and> collect example_env example_cfg (Finite 20000000) 43200 43201 = Inl OverflowError"
proof -
  let ?b = "(example_source ''b'' ''https://b.example/rss'')\<lparr>src_id := YNum 2330\<rparr>"
  have a: "collect_one example_env 36000 (example_source ''a'' ''https://a.example/rss'')
      = Inr [make_item example_env (example_source ''a'' ''https://a.example/rss'')
          (YStr ''https://a.example/rss'')
          \<lparr>e_title = ''Oil prices rise'', e_link = ''https://a.example/oil'',
            e_published_at = Some ''11:30'', e_raw_summary = []\<rparr> 41400]"
    by (simp add: collect_one_def build_url_def example_source_def example_env_def
        and_then_def entry_time_def replace_Z_def)
  have b: "collect_one example_env 36000 ?b = Inl ''503 Server Error''"
    by (simp add: collect_one_def build_url_def example_source_def example_env_def
        and_then_def)
  have c: "collect_one example_env 36000 (example_source ''c'' ''https://c.example/rss'')
      = Inr [make_item example_env (example_source ''c'' ''https://c.example/rss'')
          (YStr ''https://c.example/rss'')
          \<lparr>e_title = ''Tech stocks fall'', e_link = ''https://c.example/tech'',
            e_published_at = Some ''11:45'', e_raw_summary = []\<rparr> 42300]"
    by (simp add: collect_one_def build_url_def example_source_def example_env_def
        and_then_def entry_time_def replace_Z_def)
  have i: "src_id ?b = YNum 2330" "src_id (example_source ''a'' ''https://a.example/rss'') = YStr ''a''"
    "src_id (example_source ''c'' ''https://c.example/rss'') = YStr ''c''"
    by (simp_all add: example_source_def)
  have o: "isoformat example_env 43201 = ''other''" "isoformat example_env 36000 = ''10:00''"
    by (simp_all add: example_env_def)
  note t = collect_isolates_source_faults [of example_env "9 / 10" 36000
      "[example_source ''a'' ''https://a.example/rss'', ?b,
        example_source ''c'' ''https://c.example/rss'']" _ _ _ example_cfg
      "[(''taiwan'', [example_source ''a'' ''https://a.example/rss'']), (''global'', [])]"
      43200 "Finite 2" 36000 43201]
  from t have 1: "reg_errors (collect_region example_env (9 / 10) 36000
      [example_source ''a'' ''https://a.example/rss'', ?b,
       example_source ''c'' ''https://c.example/rss'']) = [(YNum 2330, ''503 Server Error'')]"
    by (simp add: a b c i)
  from t have 2: "reg_sources (collect_region example_env (9 / 10) 36000
      [example_source ''a'' ''https://a.example/rss'', ?b,
       example_source ''c'' ''https://c.example/rss'']) = [YStr ''a'', YNum 2330, YStr ''c'']"
    by (simp add: i)
  from t have 3: "reg_items (collect_region example_env (9 / 10) 36000
      [example_source ''a'' ''https://a.example/rss'', ?b,
       example_source ''c'' ''https://c.example/rss''])
    = dedup (9 / 10)
       [make_item example_env (example_source ''a'' ''https://a.example/rss'')
          (YStr ''https://a.example/rss'')
          \<lparr>e_title = ''Oil prices rise'', e_link = ''https://a.example/oil'',
            e_published_at = Some ''11:30'', e_raw_summary = []\<rparr> 41400,
        make_item example_env (example_source ''c'' ''https://c.example/rss'')
          (YStr ''https://c.example/rss'')
          \<lparr>e_title = ''Tech stocks fall'', e_link = ''https://c.example/tech'',
            e_published_at = Some ''11:45'', e_raw_summary = []\<rparr> 42300]"
    by (simp add: a b c)
  from t example_config_steps
  have 4: "collect example_env example_cfg (Finite 2) 43200 43201 =
       Inr \<lparr>out_generated_at = ''other'', out_window_hours = Finite 2,
            out_cutoff_utc = ''10:00'',
            out_regions =
              [(''taiwan'', collect_region example_env (9 / 10) 36000
                              [example_source ''a'' ''https://a.example/rss'']),
               (''global'', collect_region example_env (9 / 10) 36000 [])]\<rparr>"
    by (simp add: o)
  from 1 2 3 4 example_window_too_large show ?thesis by blast
qed

text \<open>
  Claim C10. The threshold is read at index 1 of the list of rules without a check of
  its length. When \<^verbatim>\<open>global.deduplication.rules\<close> is a list of fewer than two elements
  the lookup raises \<^verbatim>\<open>IndexError\<close>, and \<^verbatim>\<open>collect\<close> ends with it whatever the feeds would
  deliver: the lookup is its first step. When the path is absent, at \<^verbatim>\<open>global\<close>, at
  \<^verbatim>\<open>deduplication\<close> or at \<^verbatim>\<open>rules\<close>, the threshold is 0.9.
\<close>

theorem threshold_rules_index:
  "(cfg = YDict kvs \<and> map_of kvs ''global'' = Some (YDict g)
      \<and> map_of g ''deduplication'' = Some (YDict d)
      \<and> map_of d ''rules'' = Some (YList rules) \<and> length rules < 2 \<longrightarrow>
        threshold_of env cfg = Inl IndexError
        \<and> collect env cfg window_hours now1 now2 = Inl IndexError)
   \<and> (cfg = YDict kvs \<and> map_of kvs ''global'' = None \<longrightarrow>
        threshold_of env cfg = Inr (9 / 10))
   \<and> (cfg = YDict kvs \<and> map_of kvs ''global'' = Some (YDict g)
      \<and> map_of g ''deduplication'' = None \<longrightarrow> threshold_of env cfg = Inr (9 / 10))
   \<and> (cfg = YDict kvs \<and> map_of kvs ''global'' = Some (YDict g)
      \<and> map_of g ''deduplication'' = Some (YDict d) \<and> map_of d ''rules'' = None \<longrightarrow>
        threshold_of env cfg = Inr (9 / 10))"
  by (simp add: threshold_of_def collect_def and_then_def get_default_def to_float_small
      del: to_float.simps)

theorem threshold_rules_index_witness:
  "collect example_env
     (YDict [(''global'', YDict [(''deduplication'',
        YDict [(''rules'', YList [YDict [(''threshold'', YNum (8 / 10))]])])])])
     (Finite 2) 43200 43201 = Inl IndexError
   \<and> threshold_of example_env (YDict [(''taiwan'', YDict [])]) = Inr (9 / 10)"
  using threshold_rules_index [of
      "YDict [(''global'', YDict [(''deduplication'',
        YDict [(''rules'', YList [YDict [(''threshold'', YNum (8 / 10))]])])])]"
      "[(''global'', YDict [(''deduplication'',
        YDict [(''rules'', YList [YDict [(''threshold'', YNum (8 / 10))]])])])]"
      "[(''deduplication'', YDict [(''rules'', YList [YDict [(''threshold'', YNum (8 / 10))]])])]"
      "[(''rules'', YList [YDict [(''threshold'', YNum (8 / 10))]])]"
      "[YDict [(''threshold'', YNum (8 / 10))]]" example_env "Finite 2" 43200 43201]
    threshold_rules_index [of "YDict [(''taiwan'', YDict [])]" "[(''taiwan'', YDict [])]"
      "[]" "[]" "[]" example_env "Finite 2" 43200 43201]
  by simp

section \<open>The window of recency\<close>

lemma filter_entries_origin:
  "it \<in> set (filter_entries env cutoff src url parsed) \<Longrightarrow>
     \<exists>e \<in> set parsed. \<exists>dt. entry_time env e = Some dt \<and> cutoff \<le> dt
        \<and> it = make_item env src url e dt"
  by (induction parsed) (auto split: option.splits if_splits)

lemma filter_entries_append:
  "filter_entries env cutoff src url (xs @ ys)
     = filter_entries env cutoff src url xs @ filter_entries env cutoff src url ys"
  by (induction xs) (auto split: option.splits)

lemma collect_one_times:
  assumes "collect_one env cutoff src = Inr its" "it \<in> set its"
  shows "\<exists>dt. cutoff \<le> dt \<and> published_at it = isoformat env dt"
proof -
  from assms(1) obtain url parsed where "its = filter_entries env cutoff src url parsed"
    by (auto simp: collect_one_def and_then_def split: sum.splits)
  with assms(2) filter_entries_origin [of it env cutoff src url parsed]
  show ?thesis by (auto simp: make_item_def)
qed

lemma dedup_published_at:
  "\<forall>k \<in> set (dedup thr xs). published_at k \<in> published_at ` set xs"
  by (rule dedup_kept_pred) (simp_all add: merge_dup_fields)

lemma collect_region_times:
  assumes "it \<in> set (reg_items (collect_region env thr cutoff srcs))"
  shows "\<exists>dt. cutoff \<le> dt \<and> published_at it = isoformat env dt"
proof -
  let ?all = "concat (map (\<lambda>s. case collect_one env cutoff s of
                                  Inl m \<Rightarrow> [] | Inr its \<Rightarrow> its) srcs)"
  have "reg_items (collect_region env thr cutoff srcs) = dedup thr ?all"
    by (simp add: collect_region_def foldl_collect_source)
  with assms have "it \<in> set (dedup thr ?all)" by simp
  with dedup_published_at [of thr ?all] have "published_at it \<in> published_at ` set ?all"
    by blast
  then obtain x where x: "x \<in> set ?all" "published_at it = published_at x" by blast
  from x(1) obtain s where "x \<in> set (case collect_one env cutoff s of
      Inl m \<Rightarrow> [] | Inr its \<Rightarrow> its)" by auto
  then obtain its where "collect_one env cutoff s = Inr its" "x \<in> set its"
    by (cases "collect_one env cutoff s") auto
  from collect_one_times [OF this] x(2) show ?thesis by simp
qed

text \<open>
  Claim C5. Every item in \<^verbatim>\<open>regions.*.items\<close> of the result was published at the cutoff
  or later, the cutoff being the time \<^verbatim>\<open>collect\<close> reads from the clock for it minus
  \<^verbatim>\<open>window_hours\<close>, and \<^verbatim>\<open>cutoff_utc\<close> of the result is that time (\<^verbatim>\<open>generated_at\<close> is a
  second reading of the clock). Every item that \<^verbatim>\<open>_collect_one\<close> builds comes from an
  entry of the feed whose \<^verbatim>\<open>published_at\<close> parses to a time at the cutoff or later. An
  entry whose \<^verbatim>\<open>published_at\<close> is \<^verbatim>\<open>None\<close>, is empty or does not parse is excluded: the
  items of a feed are the same with the entry and without it.
\<close>

theorem collect_items_recent:
  "(collect env cfg window_hours now1 now2 = Inr out \<and> (region, r) \<in> set (out_regions out)
      \<and> it \<in> set (reg_items r) \<longrightarrow>
        (\<exists>w. window_hours = Finite w
           \<and> out_cutoff_utc out = isoformat env (now1 - w * 3600)
           \<and> (\<exists>dt. now1 - w * 3600 \<le> dt \<and> published_at it = isoformat env dt)))
   \<and> (it' \<in> set (filter_entries env cutoff src url parsed) \<longrightarrow>
        (\<exists>e' \<in> set parsed. \<exists>dt. entry_time env e' = Some dt \<and> cutoff \<le> dt
           \<and> it' = make_item env src url e' dt))
   \<and> (entry_time env e = None \<longrightarrow>
        filter_entries env cutoff src url (xs @ e # ys)
          = filter_entries env cutoff src url (xs @ ys))
   \<and> (entry_time env e = None \<longleftrightarrow>
        (e_published_at e = None \<or> e_published_at e = Some []
         \<or> (\<exists>s. e_published_at e = Some s \<and> fromisoformat env (replace_Z s) = None)))"
proof (intro conjI impI)
  assume h: "collect env cfg window_hours now1 now2 = Inr out \<and> (region, r) \<in> set (out_regions out)
      \<and> it \<in> set (reg_items r)"
  then obtain thr sources c where c: "cutoff_of now1 window_hours = Inr c" and
    o: "out = \<lparr>out_generated_at = isoformat env now2, out_window_hours = window_hours,
            out_cutoff_utc = isoformat env c,
            out_regions = map (\<lambda>(region, srcs). (region, collect_region env thr c srcs)) sources\<rparr>"
    by (auto simp: collect_def and_then_def split: sum.splits)
  from c obtain w where w: "window_hours = Finite w" "c = now1 - w * 3600"
    by (cases window_hours) (auto split: if_splits)
  from o h obtain srcs where "r = collect_region env thr c srcs" by auto
  with h collect_region_times
  have "\<exists>dt. c \<le> dt \<and> published_at it = isoformat env dt" by blast
  with o w
  show "\<exists>w. window_hours = Finite w
           \<and> out_cutoff_utc out = isoformat env (now1 - w * 3600)
           \<and> (\<exists>dt. now1 - w * 3600 \<le> dt \<and> published_at it = isoformat env dt)"
    by simp
next
  assume "it' \<in> set (filter_entries env cutoff src url parsed)"
  then show "\<exists>e' \<in> set parsed. \<exists>dt. entry_time env e' = Some dt \<and> cutoff \<le> dt
           \<and> it' = make_item env src url e' dt"
    by (rule filter_entries_origin)
next
  assume "entry_time env e = None"
  then show "filter_entries env cutoff src url (xs @ e # ys)
          = filter_entries env cutoff src url (xs @ ys)"
    by (simp add: filter_entries_append)
next
  show "entry_time env e = None \<longleftrightarrow>
        (e_published_at e = None \<or> e_published_at e = Some []
         \<or> (\<exists>s. e_published_at e = Some s \<and> fromisoformat env (replace_Z s) = None))"
    by (auto simp: entry_time_def split: option.splits)
qed

lemma collect_example:
  "collect example_env example_cfg (Finite 2) 43200 43201 =
     Inr \<lparr>out_generated_at = ''other'', out_window_hours = Finite 2,
          out_cutoff_utc = ''10:00'',
          out_regions =
            [(''taiwan'',
              \<lparr>reg_items =
                 [\<lparr>title = ''Oil prices rise'', link = ''https://a.example/oil'',
                    published_at = ''11:30'', source = YStr ''a'', source_id = YStr ''a'',
                    language = YNull, weight = 1, tags = [], raw_summary = [],
                    feed_url = YStr ''https://a.example/rss'', alt_links = None,
                    alt_sources = None\<rparr>],
               reg_errors = [], reg_sources = [YStr ''a'']\<rparr>),
             (''global'', \<lparr>reg_items = [], reg_errors = [], reg_sources = []\<rparr>)]\<rparr>"
  by code_simp

theorem collect_items_recent_witness:
  "(\<exists>dt. 43200 - 2 * 3600 \<le> dt \<and> ''11:30'' = isoformat example_env dt)
   \<and> filter_entries example_env 36000 (example_source ''a'' ''https://a.example/rss'')
        (YStr ''https://a.example/rss'')
        ([\<lparr>e_title = ''Oil prices rise'', e_link = ''https://a.example/oil'',
            e_published_at = Some ''11:30'', e_raw_summary = []\<rparr>]
         @ \<lparr>e_title = ''Undated note'', e_link = ''https://a.example/note'',
             e_published_at = None, e_raw_summary = []\<rparr>
         # [\<lparr>e_title = ''Morning wrap'', e_link = ''https://a.example/wrap'',
             e_published_at = Some ''09:00'', e_raw_summary = []\<rparr>])
      = filter_entries example_env 36000 (example_source ''a'' ''https://a.example/rss'')
        (YStr ''https://a.example/rss'')
        ([\<lparr>e_title = ''Oil prices rise'', e_link = ''https://a.example/oil'',
            e_published_at = Some ''11:30'', e_raw_summary = []\<rparr>]
         @ [\<lparr>e_title = ''Morning wrap'', e_link = ''https://a.example/wrap'',
             e_published_at = Some ''09:00'', e_raw_summary = []\<rparr>])"
proof -
  let ?it = "\<lparr>title = ''Oil prices rise'', link = ''https://a.example/oil'',
         published_at = ''11:30'', source = YStr ''a'', source_id = YStr ''a'',
         language = YNull, weight = 1, tags = [], raw_summary = [],
         feed_url = YStr ''https://a.example/rss'', alt_links = None, alt_sources = None\<rparr>"
  let ?r = "\<lparr>reg_items = [?it], reg_errors = [], reg_sources = [YStr ''a'']\<rparr>"
  let ?out = "\<lparr>out_generated_at = ''other'', out_window_hours = Finite 2,
          out_cutoff_utc = ''10:00'',
          out_regions = [(''taiwan'', ?r),
             (''global'', \<lparr>reg_items = [], reg_errors = [], reg_sources = []\<rparr>)]\<rparr>"
  let ?undated = "\<lparr>e_title = ''Undated note'', e_link = ''https://a.example/note'',
        e_published_at = None, e_raw_summary = []\<rparr>"
  have h: "collect example_env example_cfg (Finite 2) 43200 43201 = Inr ?out
      \<and> (''taiwan'', ?r) \<in> set (out_regions ?out) \<and> ?it \<in> set (reg_items ?r)"
    using collect_example by simp
  have n: "entry_time example_env ?undated = None"
    by (simp add: entry_time_def)
  note t = collect_items_recent [of example_env example_cfg "Finite 2" 43200 43201 ?out
      "''taiwan''" ?r ?it ?it 36000 "example_source ''a'' ''https://a.example/rss''"
      "YStr ''https://a.example/rss''" "[]"
      ?undated
      "[\<lparr>e_title = ''Oil prices rise'', e_link = ''https://a.example/oil'',
            e_published_at = Some ''11:30'', e_raw_summary = []\<rparr>]"
      "[\<lparr>e_title = ''Morning wrap'', e_link = ''https://a.example/wrap'',
             e_published_at = Some ''09:00'', e_raw_summary = []\<rparr>]"]
  from t h have "\<exists>w. Finite 2 = Finite w
      \<and> (\<exists>dt. 43200 - w * 3600 \<le> dt \<and> published_at ?it = isoformat example_env dt)"
    by blast
  then have 1: "\<exists>dt. 43200 - 2 * 3600 \<le> dt \<and> ''11:30'' = isoformat example_env dt"
    by simp
  from t n have 2: "filter_entries example_env 36000 (example_source ''a'' ''https://a.example/rss'')
        (YStr ''https://a.example/rss'')
        ([\<lparr>e_title = ''Oil prices rise'', e_link = ''https://a.example/oil'',
            e_published_at = Some ''11:30'', e_raw_summary = []\<rparr>]
         @ ?undated
         # [\<lparr>e_title = ''Morning wrap'', e_link = ''https://a.example/wrap'',
             e_published_at = Some ''09:00'', e_raw_summary = []\<rparr>])
      = filter_entries example_env 36000 (example_source ''a'' ''https://a.example/rss'')
        (YStr ''https://a.example/rss'')
        ([\<lparr>e_title = ''Oil prices rise'', e_link = ''https://a.example/oil'',
            e_published_at = Some ''11:30'', e_raw_summary = []\<rparr>]
         @ [\<lparr>e_title = ''Morning wrap'', e_link = ''https://a.example/wrap'',
             e_published_at = Some ''09:00'', e_raw_summary = []\<rparr>])"
    by blast
  from 1 2 show ?thesis by blast
qed

end
